theory Spec2Isabelle
  imports Complex_Main
begin

section \<open>JavaScript values\<close>

text \<open>
  The client of \<^verbatim>\<open>src/frontend/app.js\<close> handles dynamically typed values: parsed JSON
  bodies, the fields of the global \<^verbatim>\<open>state\<close> object, the argument of \<^verbatim>\<open>new Error\<close>.
  They are modelled by one datatype. Numbers are integers (identifiers, ratings, totals
  and status codes are); an object is its list of properties, looked up by key.
\<close>

datatype jsval =
    JUndefined
  | JNull
  | JBool bool
  | JNum int
  | JStr string
  | JArr "jsval list"
  | JObj "(string \<times> jsval) list"

text \<open>What \<^verbatim>\<open>if (v)\<close>, \<^verbatim>\<open>!v\<close> and \<^verbatim>\<open>v || d\<close> test.\<close>

fun truthy :: "jsval \<Rightarrow> bool" where
  "truthy JUndefined = False"
| "truthy JNull = False"
| "truthy (JBool b) = b"
| "truthy (JNum n) = (n \<noteq> 0)"
| "truthy (JStr s) = (s \<noteq> [])"
| "truthy (JArr xs) = True"
| "truthy (JObj kvs) = True"

definition js_or :: "jsval \<Rightarrow> jsval \<Rightarrow> jsval" where
  "js_or a b = (if truthy a then a else b)"

text \<open>Decimal rendering of a number, as a template literal or string coercion gives it.\<close>

definition digit_char :: "nat \<Rightarrow> char" where
  "digit_char d =
     (if d = 0 then CHR ''0'' else if d = 1 then CHR ''1'' else if d = 2 then CHR ''2''
      else if d = 3 then CHR ''3'' else if d = 4 then CHR ''4'' else if d = 5 then CHR ''5''
      else if d = 6 then CHR ''6'' else if d = 7 then CHR ''7'' else if d = 8 then CHR ''8''
      else CHR ''9'')"

fun show_nat :: "nat \<Rightarrow> string" where
  "show_nat n = (if n < 10 then [digit_char n] else show_nat (n div 10) @ [digit_char (n mod 10)])"

declare show_nat.simps [simp del]

definition show_int :: "int \<Rightarrow> string" where
  "show_int i = (if i < 0 then CHR ''-'' # show_nat (nat (- i)) else show_nat (nat i))"

fun join_with :: "string \<Rightarrow> string list \<Rightarrow> string" where
  "join_with sep [] = []"
| "join_with sep [x] = x"
| "join_with sep (x # y # ys) = x @ sep @ join_with sep (y # ys)"

text \<open>
  \<^verbatim>\<open>String(v)\<close>: the coercion behind template literals, \<^verbatim>\<open>new Error(v)\<close> and
  \<^verbatim>\<open>localStorage.setItem\<close>. An array joins its elements with commas, \<^verbatim>\<open>null\<close> and
  \<^verbatim>\<open>undefined\<close> elements printing as nothing.
\<close>

fun to_string :: "jsval \<Rightarrow> string" where
  "to_string JUndefined = ''undefined''"
| "to_string JNull = ''null''"
| "to_string (JBool b) = (if b then ''true'' else ''false'')"
| "to_string (JNum n) = show_int n"
| "to_string (JStr s) = s"
| "to_string (JArr xs) =
     join_with '','' (map (\<lambda>x. if x = JNull \<or> x = JUndefined then [] else to_string x) xs)"
| "to_string (JObj kvs) = ''[object Object]''"

text \<open>
  Errors thrown in the client. \<open>Error m\<close> is \<^verbatim>\<open>new Error(m)\<close>; the others are raised by
  the platform: a rejected \<^verbatim>\<open>fetch\<close>, a body that \<^verbatim>\<open>res.json()\<close> or \<^verbatim>\<open>JSON.parse\<close>
  cannot parse, a property read or method call on \<^verbatim>\<open>null\<close>/\<^verbatim>\<open>undefined\<close>, a string
  that \<^verbatim>\<open>atob\<close> refuses.
\<close>

datatype error =
    Error string
  | NetworkError
  | SyntaxError
  | TypeError
  | InvalidCharacterError

text \<open>
  Property read \<^verbatim>\<open>v.k\<close>: throws on \<^verbatim>\<open>null\<close> and \<^verbatim>\<open>undefined\<close>, gives \<^verbatim>\<open>undefined\<close>
  where the property is missing.
\<close>

fun get_prop :: "jsval \<Rightarrow> string \<Rightarrow> error + jsval" where
  "get_prop JUndefined k = Inl TypeError"
| "get_prop JNull k = Inl TypeError"
| "get_prop (JObj kvs) k = Inr (case map_of kvs k of None \<Rightarrow> JUndefined | Some v \<Rightarrow> v)"
| "get_prop (JArr xs) k = Inr (if k = ''length'' then JNum (int (length xs)) else JUndefined)"
| "get_prop (JStr s) k = Inr (if k = ''length'' then JNum (int (length s)) else JUndefined)"
| "get_prop (JBool b) k = Inr JUndefined"
| "get_prop (JNum n) k = Inr JUndefined"

section \<open>Strings and numbers of the platform\<close>

text \<open>
  A string is its list of bytes (UTF-8). \<open>trim\<close> is \<^verbatim>\<open>String.prototype.trim\<close> for the
  white space of ASCII; \<open>encodeURIComponent\<close> leaves the unreserved characters and writes
  every other byte as a percent escape.
\<close>

definition is_space :: "char \<Rightarrow> bool" where
  "is_space c = (c \<in> set [CHR '' '', CHR 0x09, CHR 0x0A, CHR 0x0B, CHR 0x0C, CHR 0x0D])"

definition trim :: "string \<Rightarrow> string" where
  "trim s = rev (dropWhile is_space (rev (dropWhile is_space s)))"

definition unreserved :: "char \<Rightarrow> bool" where
  "unreserved c =
     (c \<in> set ''ABCDEFGHIJKLMNOPQRSTUVWXYZabcdefghijklmnopqrstuvwxyz0123456789-_.!~*()''
      \<or> c = CHR 0x27)"

definition hex_digit :: "nat \<Rightarrow> char" where
  "hex_digit n = ''0123456789ABCDEF'' ! n"

definition percent :: "char \<Rightarrow> string" where
  "percent c = [CHR ''%'', hex_digit ((of_char c :: nat) div 16), hex_digit ((of_char c :: nat) mod 16)]"

definition encodeURIComponent :: "string \<Rightarrow> string" where
  "encodeURIComponent s = concat (map (\<lambda>c. if unreserved c then [c] else percent c) s)"

text \<open>
  Numbers that are not integers: the results of \<^verbatim>\<open>Number(v)\<close> and of a division.
  \<open>to_number\<close> reads a string when it is a plain decimal integer (other numeric
  spellings are read as \<open>NaN\<close>).
\<close>

datatype number = Finite int | NaN | PlusInfinity | MinusInfinity

definition is_digit :: "char \<Rightarrow> bool" where
  "is_digit c = (48 \<le> (of_char c :: nat) \<and> (of_char c :: nat) \<le> 57)"

definition digits_value :: "string \<Rightarrow> nat" where
  "digits_value s = foldl (\<lambda>a c. 10 * a + ((of_char c :: nat) - 48)) 0 s"

definition parse_decimal :: "string \<Rightarrow> int option" where
  "parse_decimal s =
     (case s of
        [] \<Rightarrow> None
      | c # r \<Rightarrow>
          if c = CHR ''-'' \<and> r \<noteq> [] \<and> list_all is_digit r then Some (- int (digits_value r))
          else if c = CHR ''+'' \<and> r \<noteq> [] \<and> list_all is_digit r then Some (int (digits_value r))
          else if list_all is_digit s then Some (int (digits_value s))
          else None)"

definition string_to_number :: "string \<Rightarrow> number" where
  "string_to_number s =
     (if trim s = [] then Finite 0
      else case parse_decimal (trim s) of None \<Rightarrow> NaN | Some i \<Rightarrow> Finite i)"

fun to_number :: "jsval \<Rightarrow> number" where
  "to_number JUndefined = NaN"
| "to_number JNull = Finite 0"
| "to_number (JBool b) = Finite (if b then 1 else 0)"
| "to_number (JNum n) = Finite n"
| "to_number (JStr s) = string_to_number s"
| "to_number (JArr xs) = string_to_number (to_string (JArr xs))"
| "to_number (JObj kvs) = NaN"

text \<open>\<^verbatim>\<open>a / b\<close> followed by \<^verbatim>\<open>Math.ceil\<close>, for an integer divisor.\<close>

definition ceil_div :: "number \<Rightarrow> int \<Rightarrow> number" where
  "ceil_div a b =
     (case a of
        Finite t \<Rightarrow>
          if b = 0 then (if t = 0 then NaN else if 0 < t then PlusInfinity else MinusInfinity)
          else Finite \<lceil>real_of_int t / real_of_int b\<rceil>
      | NaN \<Rightarrow> NaN
      | PlusInfinity \<Rightarrow> (if 0 \<le> b then PlusInfinity else MinusInfinity)
      | MinusInfinity \<Rightarrow> (if 0 \<le> b then MinusInfinity else PlusInfinity))"

text \<open>\<^verbatim>\<open>x <= i\<close> and \<^verbatim>\<open>i >= x\<close> for an integer \<open>i\<close>: false whenever \<open>x\<close> is \<open>NaN\<close>.\<close>

fun num_le_int :: "number \<Rightarrow> int \<Rightarrow> bool" where
  "num_le_int (Finite n) i = (n \<le> i)"
| "num_le_int NaN i = False"
| "num_le_int PlusInfinity i = False"
| "num_le_int MinusInfinity i = True"

fun int_ge_num :: "int \<Rightarrow> number \<Rightarrow> bool" where
  "int_ge_num i (Finite n) = (i \<ge> n)"
| "int_ge_num i NaN = False"
| "int_ge_num i PlusInfinity = False"
| "int_ge_num i MinusInfinity = True"

section \<open>The network, the browser and the application state\<close>

text \<open>
  A request as \<^verbatim>\<open>fetch\<close> receives it. Every request of the client carries the JSON
  content type; the body is the value handed to \<^verbatim>\<open>JSON.stringify\<close>.
\<close>

record request =
  req_method :: string
  req_url :: string
  req_auth :: "string option"
  req_body :: "jsval option"

text \<open>
  A response: its status and what \<^verbatim>\<open>res.json()\<close> resolves to (\<open>None\<close> when the body is
  absent or is not JSON, and the promise rejects).
\<close>

datatype response = Response (status: nat) (json: "jsval option")

definition ok :: "response \<Rightarrow> bool" where
  "ok r = (200 \<le> status r \<and> status r \<le> 299)"

datatype reply = Rejects | Replies response

record user =
  user_id :: "int option"
  role :: jsval
  username :: jsval

subsection \<open>The page\<close>

text \<open>
  What an error shows as \<^verbatim>\<open>err.message\<close>: the text given to \<^verbatim>\<open>new Error\<close>, or the
  platform's own text for the errors it raises.
\<close>

datatype message = Msg string | PlatformMessage error

fun message_of :: "error \<Rightarrow> message" where
  "message_of (Error m) = Msg m"
| "message_of e = PlatformMessage e"

text \<open>
  The Discover view: the search input (an element of the store \<open>inputs\<close> below), the
  closure variable \<^verbatim>\<open>searchTimer\<close>, the genre chips, the book grid and the pagination
  container with the number of click listeners added to it. Markup is left out: a card is
  the book it shows.
\<close>

datatype grid = GridBlank | Skeleton | NoBooksFound | Cards "jsval list" | CouldNotLoad message

record pager =
  prev_disabled :: bool
  prev_page :: int
  info_page :: int
  info_total :: number
  next_disabled :: bool
  next_page :: int

record chip =
  chip_label :: string
  chip_genre :: string
  chip_active :: bool

record discover =
  search_input :: nat
  searchTimer :: "nat option"
  genre_chips :: "chip list"
  book_grid :: grid
  pagination :: "pager option"
  pagination_listeners :: nat

text \<open>
  The Book Detail view, as the template of \<^verbatim>\<open>renderBookDetail\<close> builds it: a button
  is its class (\<^verbatim>\<open>active-like\<close> or \<^verbatim>\<open>active-bookmark\<close> present or not) and its child
  nodes, an \<^verbatim>\<open>svg\<close> element with its \<^verbatim>\<open>fill\<close> attribute and a text node.
\<close>

datatype node = Svg string | Text string

record button =
  btn_active :: bool
  btn_children :: "node list"

record star =
  star_value :: int
  star_filled :: bool

record detail =
  detail_book :: jsval
  like_btn :: button
  bookmark_btn :: button
  stars :: "star list"
  rating_label :: string
  currentRating :: jsval

text \<open>
  The Library view: the tab carrying the class \<^verbatim>\<open>active\<close>, the closure variables
  \<^verbatim>\<open>activeFilter\<close> and \<^verbatim>\<open>allInteractions\<close>, and the content.
\<close>

record library_row =
  row_book_id :: jsval
  row_title :: string
  row_item :: jsval

datatype library_content =
    LibLoading
  | NothingHereYet string
  | LibRows "library_row list"
  | CouldNotLoadLibrary message

record library =
  active_tab :: string
  activeFilter :: string
  allInteractions :: jsval
  library_content :: library_content

datatype view =
    NoView
  | AuthView
  | DiscoverView discover
  | DetailView detail
  | LibraryView library

subsection \<open>The world\<close>

text \<open>
  The world: the fields of \<^verbatim>\<open>state\<close> that the code reads or writes, the one item of
  \<^verbatim>\<open>localStorage\<close>, the page, the pending debounce timers and the network.
  \<^item> \<open>net\<close> holds what the server answers to the next calls of \<^verbatim>\<open>fetch\<close>, in order
    (when it is used up, \<^verbatim>\<open>fetch\<close> rejects); \<open>log\<close> holds the requests sent so far.
  \<^item> \<open>inputs\<close> gives the current value of every search input element ever created;
    \<open>timers\<close> lists the pending timers of the search handler, each with the input element
    its callback closes over; \<open>next_id\<close> is the next fresh timer or element number.
  \<^item> \<open>toasts\<close> lists the notifications shown, each with its type.
  The navigation bar, the element for the user's name and the container of the
  notifications belong to the HTML page, which is not among the sources:
  \<open>navbar_hidden\<close> takes the bar to exist, \<open>nav_username\<close> is \<open>None\<close> when the page has
  no such element. The fields \<^verbatim>\<open>currentPage\<close>, \<^verbatim>\<open>genres\<close> and \<^verbatim>\<open>interactions\<close> of
  \<^verbatim>\<open>state\<close> are left out: the first is only written, the others are never used.

  A handler runs to its end before the next event is taken: the events that JavaScript
  could take while a handler awaits a response are taken after it.
\<close>

record world =
  token :: jsval
  user :: "user option"
  books :: jsval
  totalBooks :: jsval
  page :: int
  pageSize :: int
  searchQuery :: string
  genreFilter :: string
  mg_refresh :: "string option"
  navbar_hidden :: bool
  nav_username :: "string option"
  app :: view
  toasts :: "(message \<times> string) list"
  inputs :: "nat \<Rightarrow> string"
  timers :: "(nat \<times> nat) list"
  next_id :: nat
  net :: "reply list"
  log :: "request list"

definition API :: string where
  "API = ''/api''"

text \<open>\<^verbatim>\<open>fetch(url, opts)\<close>: the request is logged; the next reply of the network is consumed.\<close>

definition fetch :: "request \<Rightarrow> world \<Rightarrow> (error + response) \<times> world" where
  "fetch rq w =
     (case net w of
        [] \<Rightarrow> (Inl NetworkError, w\<lparr>log := log w @ [rq]\<rparr>)
      | Rejects # rs \<Rightarrow> (Inl NetworkError, w\<lparr>log := log w @ [rq], net := rs\<rparr>)
      | Replies res # rs \<Rightarrow> (Inr res, w\<lparr>log := log w @ [rq], net := rs\<rparr>))"

section \<open>Session and API client\<close>

text \<open>\<^verbatim>\<open>hideApp\<close>, \<^verbatim>\<open>renderAuth\<close> and \<^verbatim>\<open>logout\<close> (app.js, lines 108 to 137 and 160).\<close>

definition hideApp :: "world \<Rightarrow> world" where
  "hideApp w = w\<lparr>navbar_hidden := True\<rparr>"

definition renderAuth :: "world \<Rightarrow> world" where
  "renderAuth w = w\<lparr>app := AuthView\<rparr>"

definition logout :: "world \<Rightarrow> world" where
  "logout w = renderAuth (hideApp (w\<lparr>token := JNull, user := None, mg_refresh := None\<rparr>))"

text \<open>
  \<^verbatim>\<open>api.refreshToken\<close> (lines 63 to 79). \<open>refresh_request\<close> is the call it sends.
  \<open>refreshToken_try\<close> is the body of its \<^verbatim>\<open>try\<close> block, which can throw: the fetch can
  reject, and so can \<^verbatim>\<open>r.json()\<close> on an ok response. \<open>refreshToken\<close> catches whatever
  that throws and returns \<^verbatim>\<open>false\<close>. Its result type keeps an error case, so that "it never
  throws" is a statement to prove.
\<close>

definition refresh_request :: "string \<Rightarrow> request" where
  "refresh_request refresh =
     \<lparr>req_method = ''POST'', req_url = API @ ''/auth/refresh'', req_auth = None,
      req_body = Some (JObj [(''refresh_token'', JStr refresh)])\<rparr>"

definition refreshToken_try :: "string \<Rightarrow> world \<Rightarrow> (error + bool) \<times> world" where
  "refreshToken_try refresh w =
     (case fetch (refresh_request refresh) w of
        (Inl e, w1) \<Rightarrow> (Inl e, w1)
      | (Inr r, w1) \<Rightarrow>
          (case (if ok r then (case json r of None \<Rightarrow> Inl SyntaxError | Some j \<Rightarrow> Inr j)
                 else Inr JNull) of
             Inl e \<Rightarrow> (Inl e, w1)
           | Inr data \<Rightarrow>
               if truthy data then
                 (case get_prop data ''access_token'' of
                    Inl e \<Rightarrow> (Inl e, w1)
                  | Inr access \<Rightarrow>
                      (case get_prop data ''refresh_token'' of
                         Inl e \<Rightarrow> (Inl e, w1\<lparr>token := access\<rparr>)
                       | Inr rt \<Rightarrow>
                           (Inr True, w1\<lparr>token := access, mg_refresh := Some (to_string rt)\<rparr>)))
               else (Inr False, w1)))"

definition refreshToken :: "world \<Rightarrow> (error + bool) \<times> world" where
  "refreshToken w =
     (case mg_refresh w of
        None \<Rightarrow> (Inr False, w)
      | Some refresh \<Rightarrow>
          if refresh = [] then (Inr False, w)
          else
            (case refreshToken_try refresh w of
               (Inl e, w1) \<Rightarrow> (Inr False, w1)
             | (Inr b, w1) \<Rightarrow> (Inr b, w1)))"

text \<open>
  \<^verbatim>\<open>api.request\<close> (lines 31 to 61). \<open>bearer\<close> is the header value built from
  \<^verbatim>\<open>state.token\<close>; \<open>read_json\<close> is \<^verbatim>\<open>await res.json()\<close>.
\<close>

definition bearer :: "world \<Rightarrow> string" where
  "bearer w = ''Bearer '' @ to_string (token w)"

definition read_json :: "response \<Rightarrow> error + jsval" where
  "read_json r = (case json r of None \<Rightarrow> Inl SyntaxError | Some j \<Rightarrow> Inr j)"

definition request_opts :: "string \<Rightarrow> string \<Rightarrow> jsval \<Rightarrow> world \<Rightarrow> request" where
  "request_opts meth path body w =
     \<lparr>req_method = meth, req_url = API @ path,
      req_auth = (if truthy (token w) then Some (bearer w) else None),
      req_body = (if truthy body then Some body else None)\<rparr>"

text \<open>
  What \<^verbatim>\<open>request\<close> makes of a response that is not a 401 (lines 55 to 60), and of the
  response to the retried request (lines 47 to 49).
\<close>

definition first_result :: "response \<Rightarrow> error + jsval" where
  "first_result res =
     (if \<not> ok res then
        (let err = (case read_json res of Inl e \<Rightarrow> JObj [] | Inr j \<Rightarrow> j) in
         case get_prop err ''detail'' of
           Inl e \<Rightarrow> Inl e
         | Inr d \<Rightarrow>
             Inl (Error (to_string (js_or d (JStr (''Error '' @ to_string (JNum (int (status res)))))))))
      else if status res = 204 then Inr JNull
      else read_json res)"

definition retry_result :: "response \<Rightarrow> error + jsval" where
  "retry_result retry =
     (if \<not> ok retry then
        (case read_json retry of
           Inl e \<Rightarrow> Inl e
         | Inr j \<Rightarrow>
             (case get_prop j ''detail'' of
                Inl e \<Rightarrow> Inl e
              | Inr d \<Rightarrow> Inl (Error (to_string (js_or d (JStr ''Request failed''))))))
      else if status retry = 204 then Inr JNull
      else read_json retry)"

definition request :: "string \<Rightarrow> string \<Rightarrow> jsval \<Rightarrow> world \<Rightarrow> (error + jsval) \<times> world" where
  "request meth path body w =
     (let opts = request_opts meth path body w in
      case fetch opts w of
        (Inl e, w1) \<Rightarrow> (Inl e, w1)
      | (Inr res, w1) \<Rightarrow>
          if status res = 401 then
            (case refreshToken w1 of
               (Inl e, w2) \<Rightarrow> (Inl e, w2)
             | (Inr refreshed, w2) \<Rightarrow>
                 if refreshed then
                   (case fetch (opts\<lparr>req_auth := Some (bearer w2)\<rparr>) w2 of
                      (Inl e, w3) \<Rightarrow> (Inl e, w3)
                    | (Inr retry, w3) \<Rightarrow> (retry_result retry, w3))
                 else (Inl (Error ''Session expired''), logout w2))
          else (first_result res, w1))"

definition api_get :: "string \<Rightarrow> world \<Rightarrow> (error + jsval) \<times> world" where
  "api_get path w = request ''GET'' path JNull w"

definition api_post :: "string \<Rightarrow> jsval \<Rightarrow> world \<Rightarrow> (error + jsval) \<times> world" where
  "api_post path body w = request ''POST'' path body w"

text \<open>
  The state the application starts in (lines 15 to 27), given what \<^verbatim>\<open>localStorage\<close> holds
  and what the network will answer.
\<close>

definition initial :: "string option \<Rightarrow> reply list \<Rightarrow> world" where
  "initial stored replies =
     \<lparr>token = JNull, user = None, books = JArr [], totalBooks = JNum 0, page = 1, pageSize = 20,
      searchQuery = [], genreFilter = [], mg_refresh = stored, navbar_hidden = True,
      nav_username = Some [], app = NoView, toasts = [], inputs = (\<lambda>_. []), timers = [],
      next_id = 0, net = replies, log = []\<rparr>"

text \<open>A refresh response body, as the server's contract gives it.\<close>

definition tokens :: "string \<Rightarrow> string \<Rightarrow> jsval" where
  "tokens a r = JObj [(''access_token'', JStr a), (''refresh_token'', JStr r)]"

text \<open>A world after a login: an access token in memory, a refresh token stored, the navigation bar shown.\<close>

definition signed_in :: "string \<Rightarrow> string \<Rightarrow> reply list \<Rightarrow> world" where
  "signed_in access refresh replies =
     (initial (Some refresh) replies)
       \<lparr>token := JStr access,
        user := Some \<lparr>user_id = Some 1, role = JStr ''user'', username = JStr ''reader''\<rparr>,
        navbar_hidden := False\<rparr>"

section \<open>The Discover view\<close>

text \<open>
  The element a handler captured before an \<^verbatim>\<open>await\<close> may have left the page by the time
  the handler goes on (a failed refresh renders the sign-in page): writing to it then shows
  nothing. \<open>set_grid\<close> writes the grid that \<^verbatim>\<open>loadBooks\<close> captured.
\<close>

definition set_grid :: "grid \<Rightarrow> world \<Rightarrow> world" where
  "set_grid g w =
     (case app w of
        DiscoverView d \<Rightarrow> w\<lparr>app := DiscoverView (d\<lparr>book_grid := g\<rparr>)\<rparr>
      | _ \<Rightarrow> w)"

text \<open>
  \<^verbatim>\<open>renderPagination\<close> (lines 381 to 400): nothing without the container; no control when
  there is at most one page; otherwise the two buttons and the page label, and one more
  click listener on the container.
\<close>

definition totalPages :: "world \<Rightarrow> number" where
  "totalPages w = ceil_div (to_number (totalBooks w)) (pageSize w)"

definition pager_of :: "world \<Rightarrow> pager" where
  "pager_of w =
     \<lparr>prev_disabled = (page w \<le> 1), prev_page = page w - 1,
      info_page = page w, info_total = totalPages w,
      next_disabled = int_ge_num (page w) (totalPages w), next_page = page w + 1\<rparr>"

definition renderPagination :: "world \<Rightarrow> world" where
  "renderPagination w =
     (case app w of
        DiscoverView d \<Rightarrow>
          if num_le_int (totalPages w) 1
          then w\<lparr>app := DiscoverView (d\<lparr>pagination := None\<rparr>)\<rparr>
          else w\<lparr>app := DiscoverView
                 (d\<lparr>pagination := Some (pager_of w),
                    pagination_listeners := pagination_listeners d + 1\<rparr>)\<rparr>
      | _ \<Rightarrow> w)"

text \<open>
  \<^verbatim>\<open>loadBooks\<close> (lines 316 to 360). \<open>books_url\<close> is the URL it builds; \<open>book_cards\<close>
  is the \<^verbatim>\<open>forEach\<close> that creates the cards, which throws when \<^verbatim>\<open>data.books\<close> is not
  an array or holds \<^verbatim>\<open>null\<close> (the markup of a card is left out, and with it the call
  of \<^verbatim>\<open>toFixed\<close> on the average rating, which takes a number). \<open>show_books\<close> is the
  rest of the \<^verbatim>\<open>try\<close> block after the response; it says what it threw, if anything.
\<close>

definition books_url :: "world \<Rightarrow> string" where
  "books_url w =
     ''/books?page='' @ show_int (page w) @ ''&page_size='' @ show_int (pageSize w)
       @ (if searchQuery w \<noteq> [] then ''&search='' @ encodeURIComponent (searchQuery w) else [])
       @ (if genreFilter w \<noteq> [] then ''&genre='' @ encodeURIComponent (genreFilter w) else [])"

definition book_cards :: "jsval \<Rightarrow> error + jsval list" where
  "book_cards bs =
     (case bs of
        JArr xs \<Rightarrow> if JNull \<in> set xs \<or> JUndefined \<in> set xs then Inl TypeError else Inr xs
      | _ \<Rightarrow> Inl TypeError)"

definition show_books :: "jsval \<Rightarrow> world \<Rightarrow> error option \<times> world" where
  "show_books data w =
     (case get_prop data ''books'' of
        Inl e \<Rightarrow> (Some e, w)
      | Inr bs \<Rightarrow>
          (let w1 = w\<lparr>books := bs\<rparr> in
           case get_prop data ''total'' of
             Inl e \<Rightarrow> (Some e, w1)
           | Inr t \<Rightarrow>
               (let w2 = w1\<lparr>totalBooks := t\<rparr> in
                case get_prop bs ''length'' of
                  Inl e \<Rightarrow> (Some e, w2)
                | Inr n \<Rightarrow>
                    if n = JNum 0 then (None, renderPagination (set_grid NoBooksFound w2))
                    else
                      (case book_cards bs of
                         Inl e \<Rightarrow> (Some e, set_grid GridBlank w2)
                       | Inr cs \<Rightarrow> (None, renderPagination (set_grid (Cards cs) w2))))))"

definition loadBooks :: "world \<Rightarrow> world" where
  "loadBooks w =
     (case app w of
        DiscoverView d \<Rightarrow>
          (let w0 = set_grid Skeleton w in
           case api_get (books_url w0) w0 of
             (Inl e, w1) \<Rightarrow> set_grid (CouldNotLoad (message_of e)) w1
           | (Inr data, w1) \<Rightarrow>
               (case show_books data w1 of
                  (Some e, w2) \<Rightarrow> set_grid (CouldNotLoad (message_of e)) w2
                | (None, w2) \<Rightarrow> w2))
      | _ \<Rightarrow> w)"

text \<open>
  \<^verbatim>\<open>renderGenreChips\<close> (lines 292 to 314) and the click handler it installs on the chip
  container, for a click on the \<open>i\<close>-th chip (a click beside the chips does nothing).
\<close>

definition genres :: "string list" where
  "genres = [''All'', ''Classic'', ''Fantasy'', ''Science Fiction'', ''Thriller'', ''Romance'',
     ''Dystopian'', ''Non-Fiction'', ''Memoir'', ''Fiction'', ''Horror'']"

definition genre_chip :: "world \<Rightarrow> string \<Rightarrow> chip" where
  "genre_chip w g =
     \<lparr>chip_label = g, chip_genre = (if g = ''All'' then [] else g),
      chip_active = ((g = ''All'' \<and> genreFilter w = []) \<or> genreFilter w = g)\<rparr>"

definition renderGenreChips :: "world \<Rightarrow> world" where
  "renderGenreChips w =
     (case app w of
        DiscoverView d \<Rightarrow> w\<lparr>app := DiscoverView (d\<lparr>genre_chips := map (genre_chip w) genres\<rparr>)\<rparr>
      | _ \<Rightarrow> w)"

definition activate :: "nat \<Rightarrow> chip list \<Rightarrow> chip list" where
  "activate i cs = (map (\<lambda>c. c\<lparr>chip_active := False\<rparr>) cs)[i := (cs ! i)\<lparr>chip_active := True\<rparr>]"

definition chip_click :: "nat \<Rightarrow> world \<Rightarrow> world" where
  "chip_click i w =
     (case app w of
        DiscoverView d \<Rightarrow>
          if i < length (genre_chips d) then
            loadBooks
              (w\<lparr>genreFilter := chip_genre (genre_chips d ! i), page := 1,
                 app := DiscoverView (d\<lparr>genre_chips := activate i (genre_chips d)\<rparr>)\<rparr>)
          else w
      | _ \<Rightarrow> w)"

text \<open>
  The search handler (lines 277 to 285). \<open>clearTimeout\<close> and \<open>setTimeout\<close> work on the
  pending timers; the callback of a search timer closes over the input element of its
  event. \<open>search_input_event v\<close> is an input event after the user has brought the field's
  value to \<open>v\<close>; \<open>timer_fires t\<close> is the browser running the callback of timer \<open>t\<close>, if
  that timer is still pending: the quiet interval of 350 ms has passed since it was armed.
\<close>

definition clearTimeout :: "nat option \<Rightarrow> world \<Rightarrow> world" where
  "clearTimeout t w =
     (case t of
        None \<Rightarrow> w
      | Some i \<Rightarrow> w\<lparr>timers := filter (\<lambda>p. fst p \<noteq> i) (timers w)\<rparr>)"

definition setTimeout :: "nat \<Rightarrow> world \<Rightarrow> nat \<times> world" where
  "setTimeout el w = (next_id w, w\<lparr>timers := timers w @ [(next_id w, el)], next_id := next_id w + 1\<rparr>)"

definition search_input_event :: "string \<Rightarrow> world \<Rightarrow> world" where
  "search_input_event v w =
     (case app w of
        DiscoverView d \<Rightarrow>
          (let w1 = w\<lparr>inputs := (inputs w)(search_input d := v)\<rparr>;
               w2 = clearTimeout (searchTimer d) w1;
               (t, w3) = setTimeout (search_input d) w2
           in w3\<lparr>app := DiscoverView (d\<lparr>searchTimer := Some t\<rparr>)\<rparr>)
      | _ \<Rightarrow> w)"

definition search_callback :: "nat \<Rightarrow> world \<Rightarrow> world" where
  "search_callback el w = loadBooks (w\<lparr>searchQuery := trim (inputs w el), page := 1\<rparr>)"

definition timer_fires :: "nat \<Rightarrow> world \<Rightarrow> world" where
  "timer_fires t w =
     (case map_of (timers w) t of
        None \<Rightarrow> w
      | Some el \<Rightarrow> search_callback el (w\<lparr>timers := filter (\<lambda>p. fst p \<noteq> t) (timers w)\<rparr>))"

text \<open>
  \<^verbatim>\<open>renderDiscover\<close> (lines 253 to 290). The input's \<^verbatim>\<open>value\<close> attribute is written
  between double quotes with \<^verbatim>\<open>escapeHtml\<close>, which does not escape a double quote:
  the field starts with the query up to its first double quote.
\<close>

definition renderDiscover :: "world \<Rightarrow> world" where
  "renderDiscover w =
     (let el = next_id w;
          d = \<lparr>search_input = el, searchTimer = None, genre_chips = [], book_grid = GridBlank,
               pagination = None, pagination_listeners = 0\<rparr>;
          w1 = w\<lparr>app := DiscoverView d,
                 inputs := (inputs w)(el := takeWhile (\<lambda>c. c \<noteq> CHR 0x22) (searchQuery w)),
                 next_id := el + 1\<rparr>
      in renderGenreChips (loadBooks w1))"

text \<open>Typing: one input event for each value the field goes through.\<close>

definition typing :: "string list \<Rightarrow> world \<Rightarrow> world" where
  "typing vs w = foldl (\<lambda>w v. search_input_event v w) w vs"

text \<open>The pagination control on the page, if any.\<close>

definition pagination_of :: "world \<Rightarrow> pager option" where
  "pagination_of w = (case app w of DiscoverView d \<Rightarrow> pagination d | _ \<Rightarrow> None)"

text \<open>Worlds to run the views on: a Discover view with a given total and page; a server's
  answer to the list call; the Discover view as \<open>renderDiscover\<close> leaves it; the values a
  search field goes through while \<^verbatim>\<open>fantasy novel\<close> is typed.\<close>

definition discover_page :: "int \<Rightarrow> int \<Rightarrow> world" where
  "discover_page n p =
     (initial None [])\<lparr>totalBooks := JNum n, page := p,
       app := DiscoverView \<lparr>search_input = 0, searchTimer = None, genre_chips = [],
         book_grid = GridBlank, pagination = None, pagination_listeners = 0\<rparr>\<rparr>"

definition book_list :: "jsval list \<Rightarrow> int \<Rightarrow> reply" where
  "book_list bs n = Replies (Response 200 (Some (JObj [(''books'', JArr bs), (''total'', JNum n)])))"

definition discover0 :: world where
  "discover0 =
     renderDiscover (signed_in ''A1'' ''R1''
       [book_list [JObj [(''id'', JNum 1), (''title'', JStr ''Emma'')]] 45, book_list [] 0])"

definition keys :: "string list" where
  "keys = [''f'', ''fa'', ''fan'', ''fant'', ''fanta'', ''fantas'', ''fantasy'', ''fantasy '',
     ''fantasy n'', ''fantasy no'', ''fantasy nov'', ''fantasy nove'', ''fantasy novel'']"

section \<open>The Book Detail view\<close>

text \<open>
  The page that \<^verbatim>\<open>renderBookDetail\<close> writes once the book and the user's interactions
  are loaded (lines 426 to 489), with the closure variable \<^verbatim>\<open>currentRating\<close> (line 526).
  \<open>int_le_num\<close> and \<open>num_gt_int\<close> are \<^verbatim>\<open>i <= x\<close> and \<^verbatim>\<open>x > i\<close>.
\<close>

fun int_le_num :: "int \<Rightarrow> number \<Rightarrow> bool" where
  "int_le_num i (Finite n) = (i \<le> n)"
| "int_le_num i NaN = False"
| "int_le_num i PlusInfinity = True"
| "int_le_num i MinusInfinity = False"

fun num_gt_int :: "number \<Rightarrow> int \<Rightarrow> bool" where
  "num_gt_int (Finite n) i = (n > i)"
| "num_gt_int NaN i = False"
| "num_gt_int PlusInfinity i = True"
| "num_gt_int MinusInfinity i = False"

definition action_button :: "bool \<Rightarrow> string \<Rightarrow> string \<Rightarrow> button" where
  "action_button on done todo =
     \<lparr>btn_active = on,
      btn_children = [Svg (if on then ''currentColor'' else ''none''), Text (if on then done else todo)]\<rparr>"

definition detail_page :: "jsval \<Rightarrow> bool \<Rightarrow> bool \<Rightarrow> jsval \<Rightarrow> detail" where
  "detail_page bookId userLiked userBookmarked userRating =
     \<lparr>detail_book = bookId,
      like_btn = action_button userLiked ''Liked'' ''Like'',
      bookmark_btn = action_button userBookmarked ''Bookmarked'' ''Bookmark'',
      stars = map (\<lambda>i. \<lparr>star_value = i, star_filled = int_le_num i (to_number userRating)\<rparr>)
                [1, 2, 3, 4, 5],
      rating_label = (if num_gt_int (to_number userRating) 0
                      then ''You rated '' @ to_string userRating @ ''/5'' else ''Click to rate''),
      currentRating = userRating\<rparr>"

text \<open>
  \<^verbatim>\<open>toast\<close> (lines 796 to 806): the notification is shown (and taken away again by two
  timers, which are left out).
\<close>

definition toast :: "message \<Rightarrow> string \<Rightarrow> world \<Rightarrow> world" where
  "toast m ty w = w\<lparr>toasts := toasts w @ [(m, ty)]\<rparr>"

text \<open>The emoji of the notifications, as UTF-8 bytes.\<close>

definition heart :: string where
  "heart = [CHR 0xE2, CHR 0x9D, CHR 0xA4, CHR 0xEF, CHR 0xB8, CHR 0x8F]"

definition bookmark_sign :: string where
  "bookmark_sign = [CHR 0xF0, CHR 0x9F, CHR 0x94, CHR 0x96]"

definition star_sign :: string where
  "star_sign = [CHR 0xE2, CHR 0xAD, CHR 0x90]"

text \<open>
  What the Like and Bookmark handlers do to their button after the write (lines 501 to
  504): add the active class; set the \<^verbatim>\<open>fill\<close> of the first \<^verbatim>\<open>svg\<close> inside
  (\<^verbatim>\<open>querySelector\<close> gives \<^verbatim>\<open>null\<close> when there is none, and the call throws); remove the
  last child that is an element; append the new label as text.
\<close>

fun set_first_svg :: "string \<Rightarrow> node list \<Rightarrow> node list option" where
  "set_first_svg v [] = None"
| "set_first_svg v (Svg f # ns) = Some (Svg v # ns)"
| "set_first_svg v (Text t # ns) = map_option ((#) (Text t)) (set_first_svg v ns)"

fun remove_first_svg :: "node list \<Rightarrow> node list" where
  "remove_first_svg [] = []"
| "remove_first_svg (Svg f # ns) = ns"
| "remove_first_svg (Text t # ns) = Text t # remove_first_svg ns"

definition remove_lastElementChild :: "node list \<Rightarrow> node list" where
  "remove_lastElementChild ns = rev (remove_first_svg (rev ns))"

definition mark_active :: "string \<Rightarrow> button \<Rightarrow> error option \<times> button" where
  "mark_active label b =
     (let b1 = b\<lparr>btn_active := True\<rparr> in
      case set_first_svg ''currentColor'' (btn_children b1) of
        None \<Rightarrow> (Some TypeError, b1)
      | Some ns \<Rightarrow> (None, b1\<lparr>btn_children := remove_lastElementChild ns @ [Text label]\<rparr>))"

text \<open>
  The click handlers of the Like button (lines 497 to 507) and of the Bookmark button
  (lines 510 to 520). The button is the one the handler was called on; when the page has
  changed meanwhile it is no longer shown.
\<close>

definition interaction :: "jsval \<Rightarrow> string \<Rightarrow> jsval" where
  "interaction bookId ty = JObj [(''book_id'', bookId), (''interaction_type'', JStr ty)]"

definition like_click :: "world \<Rightarrow> world" where
  "like_click w =
     (case app w of
        DetailView d \<Rightarrow>
          if btn_active (like_btn d) then w
          else
            (case api_post ''/interactions'' (interaction (detail_book d) ''like'') w of
               (Inr v, w1) \<Rightarrow>
                 (let (thrown, b) = mark_active '' Liked'' (like_btn d);
                      w2 = (case app w1 of
                              DetailView d1 \<Rightarrow> w1\<lparr>app := DetailView (d1\<lparr>like_btn := b\<rparr>)\<rparr>
                            | _ \<Rightarrow> w1)
                  in case thrown of
                       None \<Rightarrow> toast (Msg (''Added to your likes '' @ heart)) ''success'' w2
                     | Some e \<Rightarrow> toast (message_of e) ''error'' w2)
             | (Inl e, w1) \<Rightarrow> toast (message_of e) ''error'' w1)
      | _ \<Rightarrow> w)"

definition bookmark_click :: "world \<Rightarrow> world" where
  "bookmark_click w =
     (case app w of
        DetailView d \<Rightarrow>
          if btn_active (bookmark_btn d) then w
          else
            (case api_post ''/interactions'' (interaction (detail_book d) ''bookmark'') w of
               (Inr v, w1) \<Rightarrow>
                 (let (thrown, b) = mark_active '' Bookmarked'' (bookmark_btn d);
                      w2 = (case app w1 of
                              DetailView d1 \<Rightarrow> w1\<lparr>app := DetailView (d1\<lparr>bookmark_btn := b\<rparr>)\<rparr>
                            | _ \<Rightarrow> w1)
                  in case thrown of
                       None \<Rightarrow> toast (Msg (''Bookmarked! '' @ bookmark_sign)) ''success'' w2
                     | Some e \<Rightarrow> toast (message_of e) ''error'' w2)
             | (Inl e, w1) \<Rightarrow> toast (message_of e) ''error'' w1)
      | _ \<Rightarrow> w)"

text \<open>
  The click handler of the \<open>k\<close>-th star (lines 536 to 550). The star's \<^verbatim>\<open>data-value\<close> is
  the decimal text of its number, which \<^verbatim>\<open>parseInt\<close> reads back.
\<close>

definition rate_body :: "jsval \<Rightarrow> int \<Rightarrow> jsval" where
  "rate_body bookId val =
     JObj [(''book_id'', bookId), (''interaction_type'', JStr ''rate''), (''rating'', JNum val)]"

definition fill_stars :: "int \<Rightarrow> star list \<Rightarrow> star list" where
  "fill_stars val ss = map (\<lambda>(i, s). s\<lparr>star_filled := (int i < val)\<rparr>) (enumerate 0 ss)"

definition rated :: "int \<Rightarrow> detail \<Rightarrow> detail" where
  "rated val d =
     d\<lparr>currentRating := JNum val, stars := fill_stars val (stars d),
       rating_label := ''You rated '' @ show_int val @ ''/5''\<rparr>"

definition star_click :: "nat \<Rightarrow> world \<Rightarrow> world" where
  "star_click k w =
     (case app w of
        DetailView d \<Rightarrow>
          if k < length (stars d) then
            (let val = star_value (stars d ! k) in
             if JNum val = currentRating d then w
             else
               (case api_post ''/interactions'' (rate_body (detail_book d) val) w of
                  (Inr v, w1) \<Rightarrow>
                    toast (Msg (''Rated '' @ show_int val @ '' star''
                                  @ (if val > 1 then ''s'' else []) @ '' '' @ star_sign)) ''success''
                      (case app w1 of
                         DetailView d1 \<Rightarrow> w1\<lparr>app := DetailView (rated val d1)\<rparr>
                       | _ \<Rightarrow> w1)
                | (Inl e, w1) \<Rightarrow> toast (message_of e) ''error'' w1))
          else w
      | _ \<Rightarrow> w)"

text \<open>A Book Detail view of book 7 on which nothing is liked, bookmarked or rated yet.\<close>

definition detail0 :: "reply list \<Rightarrow> world" where
  "detail0 replies =
     (signed_in ''A1'' ''R1'' replies)\<lparr>app := DetailView (detail_page (JNum 7) False False (JNum 0))\<rparr>"

section \<open>The Library view\<close>

text \<open>
  \<open>set_content\<close> writes the \<^verbatim>\<open>#library-content\<close> element a function captured, which
  shows as long as the Library view is the page.
\<close>

definition set_content :: "library_content \<Rightarrow> world \<Rightarrow> world" where
  "set_content c w =
     (case app w of
        LibraryView l \<Rightarrow> w\<lparr>app := LibraryView (l\<lparr>library_content := c\<rparr>)\<rparr>
      | _ \<Rightarrow> w)"

text \<open>
  \<^verbatim>\<open>enrichLibraryItems\<close> (lines 763 to 773): one \<^verbatim>\<open>GET /books/{id}\<close> for each distinct
  book id, in the order of first appearance; the title that comes back is written to the
  rows of that book on the page; any failure is swallowed. \<open>distinct_first\<close> is
  \<^verbatim>\<open>[...new Set(xs)]\<close>. Identifiers are numbers, or strings without markup characters.
\<close>

fun distinct_first :: "'a list \<Rightarrow> 'a list" where
  "distinct_first [] = []"
| "distinct_first (x # xs) = x # distinct_first (filter (\<lambda>y. y \<noteq> x) xs)"

definition text_content :: "jsval \<Rightarrow> string" where
  "text_content v = (if v = JNull \<or> v = JUndefined then [] else to_string v)"

definition set_titles :: "jsval \<Rightarrow> jsval \<Rightarrow> world \<Rightarrow> world" where
  "set_titles bid title w =
     (case app w of
        LibraryView l \<Rightarrow>
          (case library_content l of
             LibRows rows \<Rightarrow>
               set_content
                 (LibRows (map (\<lambda>r. if to_string (row_book_id r) = to_string bid
                                      then r\<lparr>row_title := text_content title\<rparr> else r) rows)) w
           | _ \<Rightarrow> w)
      | _ \<Rightarrow> w)"

fun enrich :: "jsval list \<Rightarrow> world \<Rightarrow> world" where
  "enrich [] w = w"
| "enrich (bid # bids) w =
     (case api_get (''/books/'' @ to_string bid) w of
        (Inl e, w1) \<Rightarrow> enrich bids w1
      | (Inr book, w1) \<Rightarrow>
          (case get_prop book ''title'' of
             Inl e \<Rightarrow> enrich bids w1
           | Inr title \<Rightarrow> enrich bids (set_titles bid title w1)))"

definition book_ids :: "jsval list \<Rightarrow> jsval list" where
  "book_ids xs = map (\<lambda>i. case get_prop i ''book_id'' of Inl e \<Rightarrow> JUndefined | Inr b \<Rightarrow> b) xs"

definition enrichLibraryItems :: "jsval list \<Rightarrow> world \<Rightarrow> world" where
  "enrichLibraryItems xs w = enrich (distinct_first (book_ids xs)) w"

text \<open>
  \<^verbatim>\<open>renderLibraryList\<close> (lines 715 to 761). \<open>filter_interactions\<close> is the filtering
  expression, which throws unless the interactions are an array without \<^verbatim>\<open>null\<close>;
  \<open>library_rows\<close> is the \<^verbatim>\<open>map\<close> that writes the rows, which throws likewise. The result
  says whether the function threw.
\<close>

fun elements :: "jsval \<Rightarrow> jsval list" where
  "elements (JArr xs) = xs"
| "elements v = []"

definition no_null :: "jsval list \<Rightarrow> bool" where
  "no_null xs = (JNull \<notin> set xs \<and> JUndefined \<notin> set xs)"

definition filter_interactions :: "string \<Rightarrow> jsval \<Rightarrow> error + jsval" where
  "filter_interactions f interactions =
     (if f = ''all'' then Inr interactions
      else case interactions of
             JArr xs \<Rightarrow>
               if no_null xs
               then Inr (JArr (filter (\<lambda>i. get_prop i ''interaction_type'' = Inr (JStr f)) xs))
               else Inl TypeError
           | _ \<Rightarrow> Inl TypeError)"

definition library_row :: "jsval \<Rightarrow> library_row" where
  "library_row i =
     (let b = (case get_prop i ''book_id'' of Inl e \<Rightarrow> JUndefined | Inr b \<Rightarrow> b) in
      \<lparr>row_book_id = b, row_title = ''Book #'' @ to_string b, row_item = i\<rparr>)"

definition library_rows :: "jsval \<Rightarrow> error + library_row list" where
  "library_rows filtered =
     (case filtered of
        JArr xs \<Rightarrow> if no_null xs then Inr (map library_row xs) else Inl TypeError
      | _ \<Rightarrow> Inl TypeError)"

definition renderLibraryList :: "jsval \<Rightarrow> string \<Rightarrow> world \<Rightarrow> error option \<times> world" where
  "renderLibraryList interactions f w =
     (case app w of
        LibraryView l \<Rightarrow>
          (case filter_interactions f interactions of
             Inl e \<Rightarrow> (Some e, w)
           | Inr filtered \<Rightarrow>
               (case get_prop filtered ''length'' of
                  Inl e \<Rightarrow> (Some e, w)
                | Inr n \<Rightarrow>
                    if n = JNum 0 then (None, set_content (NothingHereYet f) w)
                    else
                      (case library_rows filtered of
                         Inl e \<Rightarrow> (Some e, w)
                       | Inr rows \<Rightarrow>
                           (None, enrichLibraryItems (elements filtered)
                                    (set_content (LibRows rows) w)))))
      | _ \<Rightarrow> (None, w))"

text \<open>
  \<^verbatim>\<open>renderLibrary\<close> (lines 663 to 713) and the click handler of the tabs (lines 690 to
  697), for a click on the tab whose \<^verbatim>\<open>data-filter\<close> is \<open>f\<close>. What the tab handler
  throws is not caught by anything.
\<close>

definition history_path :: string where
  "history_path = ''/interactions/me?page_size=100''"

definition renderLibrary :: "world \<Rightarrow> world" where
  "renderLibrary w =
     (let w1 = w\<lparr>app := LibraryView \<lparr>active_tab = ''all'', activeFilter = ''all'',
                     allInteractions = JArr [], library_content = LibLoading\<rparr>\<rparr> in
      case api_get history_path w1 of
        (Inl e, w2) \<Rightarrow> set_content (CouldNotLoadLibrary (message_of e)) w2
      | (Inr data, w2) \<Rightarrow>
          (let w3 = (case app w2 of
                       LibraryView l \<Rightarrow> w2\<lparr>app := LibraryView (l\<lparr>allInteractions := data\<rparr>)\<rparr>
                     | _ \<Rightarrow> w2) in
           case renderLibraryList data ''all'' w3 of
             (Some e, w4) \<Rightarrow> set_content (CouldNotLoadLibrary (message_of e)) w4
           | (None, w4) \<Rightarrow> w4))"

definition tab_click :: "string \<Rightarrow> world \<Rightarrow> world" where
  "tab_click f w =
     (case app w of
        LibraryView l \<Rightarrow>
          snd (renderLibraryList (allInteractions l) f
                 (w\<lparr>app := LibraryView (l\<lparr>activeFilter := f, active_tab := f\<rparr>)\<rparr>))
      | _ \<Rightarrow> w)"

text \<open>What the Library view shows as rows: the interactions, in order.\<close>

definition library_shown :: "world \<Rightarrow> jsval list option" where
  "library_shown w =
     (case app w of
        LibraryView l \<Rightarrow>
          (case library_content l of LibRows rows \<Rightarrow> Some (map row_item rows) | _ \<Rightarrow> None)
      | _ \<Rightarrow> None)"

text \<open>
  A Library view entered by a user with a like and a view of book 7 and a bookmark of
  book 9; the server answers every call.
\<close>

definition record_of :: "int \<Rightarrow> string \<Rightarrow> jsval" where
  "record_of b ty = JObj [(''book_id'', JNum b), (''interaction_type'', JStr ty)]"

definition book_reply :: "int \<Rightarrow> string \<Rightarrow> reply" where
  "book_reply b title = Replies (Response 200 (Some (JObj [(''id'', JNum b), (''title'', JStr title)])))"

definition library0 :: world where
  "library0 =
     renderLibrary (signed_in ''A1'' ''R1''
       [Replies (Response 200 (Some (JArr [record_of 7 ''like'', record_of 9 ''bookmark'',
                                            record_of 7 ''view'']))),
        book_reply 7 ''Emma'', book_reply 9 ''Ulysses'', book_reply 7 ''Emma''])"

section \<open>The identity shown\<close>

text \<open>
  \<^verbatim>\<open>atob\<close>, the browser's decoder of standard base64 (the forgiving decoding of the HTML
  standard): white space is dropped, one or two padding characters are dropped from a string
  of a length divisible by four, and then every character must be of the alphabet
  \<^verbatim>\<open>A-Z a-z 0-9 + /\<close>. The result has one character for each byte.
\<close>

definition byte_char :: "nat \<Rightarrow> char" where
  "byte_char n =
     Char (odd n) (odd (n div 2)) (odd (n div 4)) (odd (n div 8))
          (odd (n div 16)) (odd (n div 32)) (odd (n div 64)) (odd (n div 128))"

definition b64_value :: "char \<Rightarrow> nat option" where
  "b64_value c =
     (let n = (of_char c :: nat) in
      if 65 \<le> n \<and> n \<le> 90 then Some (n - 65)
      else if 97 \<le> n \<and> n \<le> 122 then Some (n - 71)
      else if 48 \<le> n \<and> n \<le> 57 then Some (n + 4)
      else if c = CHR ''+'' then Some 62
      else if c = CHR ''/'' then Some 63
      else None)"

fun b64_bytes :: "nat list \<Rightarrow> string" where
  "b64_bytes (a # b # c # d # rest) =
     byte_char (a * 4 + b div 16) # byte_char ((b mod 16) * 16 + c div 4)
       # byte_char ((c mod 4) * 64 + d) # b64_bytes rest"
| "b64_bytes [a, b, c] = [byte_char (a * 4 + b div 16), byte_char ((b mod 16) * 16 + c div 4)]"
| "b64_bytes [a, b] = [byte_char (a * 4 + b div 16)]"
| "b64_bytes [a] = []"
| "b64_bytes [] = []"

definition is_ascii_whitespace :: "char \<Rightarrow> bool" where
  "is_ascii_whitespace c = (c \<in> set [CHR 0x09, CHR 0x0A, CHR 0x0C, CHR 0x0D, CHR '' ''])"

definition strip_padding :: "string \<Rightarrow> string" where
  "strip_padding s =
     (if length s mod 4 = 0 then
        (if 2 \<le> length s \<and> drop (length s - 2) s = ''=='' then take (length s - 2) s
         else if 1 \<le> length s \<and> drop (length s - 1) s = ''='' then take (length s - 1) s
         else s)
      else s)"

definition atob :: "string \<Rightarrow> error + string" where
  "atob s =
     (let t = strip_padding (filter (\<lambda>c. \<not> is_ascii_whitespace c) s) in
      if length t mod 4 = 1 then Inl InvalidCharacterError
      else if list_all (\<lambda>c. b64_value c \<noteq> None) t
      then Inr (b64_bytes (map (\<lambda>c. the (b64_value c)) t))
      else Inl InvalidCharacterError)"

text \<open>\<^verbatim>\<open>s.split(c)\<close>.\<close>

fun split_on :: "char \<Rightarrow> string \<Rightarrow> string list" where
  "split_on c [] = [[]]"
| "split_on c (x # xs) =
     (if x = c then [] # split_on c xs
      else (case split_on c xs of p # ps \<Rightarrow> (x # p) # ps | [] \<Rightarrow> [[x]]))"


text \<open>
  \<^verbatim>\<open>parseInt(v)\<close> with no radix: leading white space, a sign, then hexadecimal digits
  after \<^verbatim>\<open>0x\<close> or else decimal digits; \<open>None\<close> is \<^verbatim>\<open>NaN\<close>.
\<close>

definition hex_value :: "char \<Rightarrow> nat option" where
  "hex_value c =
     (let n = (of_char c :: nat) in
      if 48 \<le> n \<and> n \<le> 57 then Some (n - 48)
      else if 65 \<le> n \<and> n \<le> 70 then Some (n - 55)
      else if 97 \<le> n \<and> n \<le> 102 then Some (n - 87)
      else None)"

definition parseInt :: "jsval \<Rightarrow> int option" where
  "parseInt v =
     (let s = dropWhile is_space (to_string v);
          neg = (take 1 s = ''-'');
          s1 = (if take 1 s = ''-'' \<or> take 1 s = ''+'' then drop 1 s else s);
          sign = (if neg then - 1 else 1)
      in if take 2 s1 = ''0x'' \<or> take 2 s1 = ''0X'' then
           (let h = takeWhile (\<lambda>c. hex_value c \<noteq> None) (drop 2 s1) in
            if h = [] then None
            else Some (sign * int (foldl (\<lambda>a c. 16 * a + the (hex_value c)) 0 h)))
         else
           (let ds = takeWhile is_digit s1 in
            if ds = [] then None else Some (sign * int (digits_value ds))))"

text \<open>
  \<^verbatim>\<open>decodeAndSetUser\<close> (lines 116 to 127). \<^verbatim>\<open>JSON.parse\<close> is a parameter: \<open>parse s\<close>
  is the value of the text \<open>s\<close>, or \<open>None\<close> when \<open>s\<close> is not JSON. \<open>middle_segment\<close> is
  \<^verbatim>\<open>token.split('.')[1]\<close> as \<^verbatim>\<open>atob\<close> reads it (a missing segment is \<^verbatim>\<open>undefined\<close>,
  read as that word); \<open>identity_of\<close> is the object stored in \<^verbatim>\<open>state.user\<close>;
  \<open>show_username\<close> writes the name to the navigation bar, when that element exists.
  \<open>decode_try\<close> is the body of the \<^verbatim>\<open>try\<close> block and says what it threw;
  \<open>decodeAndSetUser\<close> ignores that.
\<close>

definition middle_segment :: "string \<Rightarrow> string" where
  "middle_segment s = (case split_on CHR ''.'' s of a # b # rest \<Rightarrow> b | _ \<Rightarrow> ''undefined'')"

definition prop_or_undefined :: "jsval \<Rightarrow> string \<Rightarrow> jsval" where
  "prop_or_undefined v k = (case get_prop v k of Inl e \<Rightarrow> JUndefined | Inr x \<Rightarrow> x)"

definition identity_of :: "jsval \<Rightarrow> jsval \<Rightarrow> user" where
  "identity_of payload sub =
     \<lparr>user_id = parseInt sub,
      role = js_or (prop_or_undefined payload ''role'') (JStr ''user''),
      username = js_or (prop_or_undefined payload ''username'') (JStr (''User '' @ to_string sub))\<rparr>"

definition show_username :: "world \<Rightarrow> world" where
  "show_username w =
     (case (nav_username w, user w) of
        (Some old, Some u) \<Rightarrow> w\<lparr>nav_username := Some (to_string (username u))\<rparr>
      | _ \<Rightarrow> w)"

definition decode_try :: "(string \<Rightarrow> jsval option) \<Rightarrow> jsval \<Rightarrow> world \<Rightarrow> error option \<times> world" where
  "decode_try parse tok w =
     (case tok of
        JStr s \<Rightarrow>
          (case atob (middle_segment s) of
             Inl e \<Rightarrow> (Some e, w)
           | Inr text \<Rightarrow>
               (case parse text of
                  None \<Rightarrow> (Some SyntaxError, w)
                | Some payload \<Rightarrow>
                    (case get_prop payload ''sub'' of
                       Inl e \<Rightarrow> (Some e, w)
                     | Inr sub \<Rightarrow>
                         (None, show_username (w\<lparr>user := Some (identity_of payload sub)\<rparr>)))))
      | _ \<Rightarrow> (Some TypeError, w))"

definition decodeAndSetUser :: "(string \<Rightarrow> jsval option) \<Rightarrow> jsval \<Rightarrow> world \<Rightarrow> world" where
  "decodeAndSetUser parse tok w = snd (decode_try parse tok w)"

text \<open>
  URL-safe base64, as the specification names the encoding of the middle segment of an
  access token: the base64 alphabet with \<^verbatim>\<open>-\<close> for \<^verbatim>\<open>+\<close> and \<^verbatim>\<open>_\<close> for \<^verbatim>\<open>/\<close>, padding
  left out. \<open>base64url_decode\<close> follows these words: it puts the two characters back and
  decodes.
\<close>

definition base64url_decode :: "string \<Rightarrow> error + string" where
  "base64url_decode s =
     (if CHR ''+'' \<in> set s \<or> CHR ''/'' \<in> set s then Inl InvalidCharacterError
      else atob (map (\<lambda>c. if c = CHR ''-'' then CHR ''+'' else if c = CHR ''_'' then CHR ''/'' else c) s))"

text \<open>
  The token of user 7, whose name is Chloe with a diaeresis on the last letter (the two
  bytes C3 AB in UTF-8), and a parser that knows the payload of that token. \<^verbatim>\<open>atob\<close>
  yields one character for each byte, so the parser reads the last letter as two
  characters (in UTF-8: C3 83 and C2 AB).
\<close>

definition chloe_payload :: string where
  \<open>chloe_payload = ''{"sub":"7","role":"user","username":"Chlo'' @ [CHR 0xC3, CHR 0xAB] @ ''"}''\<close>

definition chloe_parse :: "string \<Rightarrow> jsval option" where
  "chloe_parse s =
     (if s = chloe_payload
      then Some (JObj [(''sub'', JStr ''7''), (''role'', JStr ''user''),
                       (''username'', JStr (''Chlo'' @ [CHR 0xC3, CHR 0x83, CHR 0xC2, CHR 0xAB]))])
      else None)"

definition chloe_token :: string where
  "chloe_token = ''eyJhbGciOiJIUzI1NiIsInR5cCI6IkpXVCJ9.''
     @ ''eyJzdWIiOiI3Iiwicm9sZSI6InVzZXIiLCJ1c2VybmFtZSI6IkNobG_DqyJ9'' @ ''.c2ln''"

section \<open>Properties\<close>

subsection \<open>The network\<close>

lemma fetch_fields [simp]:
  "token (snd (fetch rq w)) = token w"
  "mg_refresh (snd (fetch rq w)) = mg_refresh w"
  "user (snd (fetch rq w)) = user w"
  "app (snd (fetch rq w)) = app w"
  "log (snd (fetch rq w)) = log w @ [rq]"
  "net (snd (fetch rq w)) = tl (net w)"
  by (auto simp: fetch_def split: list.splits reply.splits)

subsection \<open>Refreshing the session\<close>

text \<open>
  The runs of \<open>refreshToken\<close>: nothing stored (no call is sent); a call that does not
  bring an ok response with a truthy JSON body; a call that does.
\<close>

lemma refreshToken_cases:
  "refreshToken w = (Inr False, w) \<and> (mg_refresh w = None \<or> mg_refresh w = Some [])
   \<or> (\<exists>refresh. mg_refresh w = Some refresh \<and> refresh \<noteq> [] \<and>
        (let w1 = snd (fetch (refresh_request refresh) w) in
          (refreshToken w = (Inr False, w1) \<and>
             \<not> (\<exists>res rest data. net w = Replies res # rest \<and> ok res \<and> json res = Some data \<and> truthy data))
          \<or> (\<exists>res rest data access rt. net w = Replies res # rest \<and> ok res \<and> json res = Some data \<and> truthy data
               \<and> get_prop data ''access_token'' = Inr access \<and> get_prop data ''refresh_token'' = Inr rt
               \<and> refreshToken w = (Inr True, w1\<lparr>token := access, mg_refresh := Some (to_string rt)\<rparr>))))"
proof (cases "mg_refresh w")
  case None
  then show ?thesis by (simp add: refreshToken_def)
next
  case (Some refresh)
  show ?thesis
  proof (cases "refresh = []")
    case True
    with Some show ?thesis by (simp add: refreshToken_def)
  next
    case False
    have "\<exists>refresh. mg_refresh w = Some refresh \<and> refresh \<noteq> [] \<and>
        (let w1 = snd (fetch (refresh_request refresh) w) in
          (refreshToken w = (Inr False, w1) \<and>
             \<not> (\<exists>res rest data. net w = Replies res # rest \<and> ok res \<and> json res = Some data \<and> truthy data))
          \<or> (\<exists>res rest data access rt. net w = Replies res # rest \<and> ok res \<and> json res = Some data \<and> truthy data
               \<and> get_prop data ''access_token'' = Inr access \<and> get_prop data ''refresh_token'' = Inr rt
               \<and> refreshToken w = (Inr True, w1\<lparr>token := access, mg_refresh := Some (to_string rt)\<rparr>)))"
    proof (rule exI [of _ refresh], cases "net w")
      case Nil
      with Some False show "mg_refresh w = Some refresh \<and> refresh \<noteq> [] \<and>
        (let w1 = snd (fetch (refresh_request refresh) w) in
          (refreshToken w = (Inr False, w1) \<and>
             \<not> (\<exists>res rest data. net w = Replies res # rest \<and> ok res \<and> json res = Some data \<and> truthy data))
          \<or> (\<exists>res rest data access rt. net w = Replies res # rest \<and> ok res \<and> json res = Some data \<and> truthy data
               \<and> get_prop data ''access_token'' = Inr access \<and> get_prop data ''refresh_token'' = Inr rt
               \<and> refreshToken w = (Inr True, w1\<lparr>token := access, mg_refresh := Some (to_string rt)\<rparr>)))"
        by (simp add: refreshToken_def refreshToken_try_def fetch_def)
    next
      case (Cons r rs)
      with Some False show "mg_refresh w = Some refresh \<and> refresh \<noteq> [] \<and>
        (let w1 = snd (fetch (refresh_request refresh) w) in
          (refreshToken w = (Inr False, w1) \<and>
             \<not> (\<exists>res rest data. net w = Replies res # rest \<and> ok res \<and> json res = Some data \<and> truthy data))
          \<or> (\<exists>res rest data access rt. net w = Replies res # rest \<and> ok res \<and> json res = Some data \<and> truthy data
               \<and> get_prop data ''access_token'' = Inr access \<and> get_prop data ''refresh_token'' = Inr rt
               \<and> refreshToken w = (Inr True, w1\<lparr>token := access, mg_refresh := Some (to_string rt)\<rparr>)))"
      proof (cases r)
        case Rejects
        with Cons Some False show ?thesis
          by (simp add: refreshToken_def refreshToken_try_def fetch_def)
      next
        case (Replies res)
        show ?thesis
        proof (cases "json res")
          case None
          with Replies Cons Some False show ?thesis
            by (cases "ok res") (simp_all add: refreshToken_def refreshToken_try_def fetch_def)
        next
          case (Some data)
          with Replies Cons \<open>mg_refresh w = Some refresh\<close> False show ?thesis
            by (cases "ok res"; cases data)
              (simp_all add: refreshToken_def refreshToken_try_def fetch_def)
        qed
      qed
    qed
    then show ?thesis by (rule disjI2)
  qed
qed

lemma refreshToken_returns: "\<exists>b w'. refreshToken w = (Inr b, w')"
  using refreshToken_cases [of w] by (auto simp: Let_def)



subsection \<open>The 401 protocol\<close>

lemma refreshToken_fields [simp]:
  "user (snd (refreshToken w)) = user w"
  "app (snd (refreshToken w)) = app w"
  "net (snd (refreshToken w)) = (if mg_refresh w = None \<or> mg_refresh w = Some [] then net w else tl (net w))"
  using refreshToken_cases [of w]
  by (auto simp: Let_def)

text \<open>
  Claim C1, as the code has it. A request whose first response is a 401 runs
  \<open>refreshToken\<close> once, which sends at most one refresh call, with the stored refresh
  token. When the refresh fails the session is torn down as \<open>logout\<close> does and
  \<^verbatim>\<open>Session expired\<close> is raised. When it succeeds the request is sent once more, with
  the new token, and what that one retry brings is the result: its body, or its failure
  (\<open>retry_result\<close>); the refreshed session is kept either way, and no further refresh
  or retry follows.
\<close>

theorem request_unauthorized:
  assumes "net w = Replies res # rest" and "status res = 401"
  shows "\<exists>refreshed w2.
     refreshToken (snd (fetch (request_opts meth path body w) w)) = (Inr refreshed, w2) \<and>
     (if refreshed then
        (\<exists>refresh. mg_refresh w = Some refresh \<and>
           log (snd (request meth path body w)) =
             log w @ [request_opts meth path body w, refresh_request refresh,
                      (request_opts meth path body w)\<lparr>req_auth := Some (bearer w2)\<rparr>]) \<and>
        fst (request meth path body w) =
          (case net w2 of
             [] \<Rightarrow> Inl NetworkError
           | Rejects # rs \<Rightarrow> Inl NetworkError
           | Replies retry # rs \<Rightarrow> retry_result retry) \<and>
        token (snd (request meth path body w)) = token w2 \<and>
        mg_refresh (snd (request meth path body w)) = mg_refresh w2 \<and>
        user (snd (request meth path body w)) = user w \<and>
        app (snd (request meth path body w)) = app w
      else
        request meth path body w = (Inl (Error ''Session expired''), logout w2) \<and>
        (log w2 = log w @ [request_opts meth path body w] \<or>
         (\<exists>refresh. mg_refresh w = Some refresh \<and>
            log w2 = log w @ [request_opts meth path body w, refresh_request refresh])))"
proof -
  let ?opts = "request_opts meth path body w"
  define w1 where "w1 = w\<lparr>log := log w @ [?opts], net := rest\<rparr>"
  have f: "fetch ?opts w = (Inr res, w1)"
    using assms by (simp add: fetch_def w1_def)
  from refreshToken_returns [of w1] obtain b w2 where
    r: "refreshToken w1 = (Inr b, w2)" by blast
  have req: "request meth path body w =
      (if b then (case fetch (?opts\<lparr>req_auth := Some (bearer w2)\<rparr>) w2 of
                      (Inl e, w3) \<Rightarrow> (Inl e, w3)
                    | (Inr retry, w3) \<Rightarrow> (retry_result retry, w3))
       else (Inl (Error ''Session expired''), logout w2))"
    using f r assms(2) by (simp add: request_def Let_def)
  have w1: "log w1 = log w @ [?opts]" "mg_refresh w1 = mg_refresh w" "user w1 = user w"
    "app w1 = app w"
    by (simp_all add: w1_def)
  show ?thesis
  proof (cases b)
    case False
    with req r f w1 refreshToken_cases [of w1] show ?thesis
      by (auto simp: Let_def)
  next
    case True
    with r w1 refreshToken_cases [of w1] obtain refresh where
      m: "mg_refresh w = Some refresh" and l: "log w2 = log w @ [?opts, refresh_request refresh]"
      by (auto simp: Let_def)
    have u: "user w2 = user w" "app w2 = app w"
      using refreshToken_fields(1,2) [of w1] r w1 by simp_all
    show ?thesis
      using True req r m l f u
      by (auto simp: fetch_def split: list.splits reply.splits)
  qed
qed


subsection \<open>Rejected requests\<close>

lemma show_int_nat [simp]: "show_int (int n) = show_nat n"
  by (simp add: show_int_def)

lemma first_rejected:
  assumes "net w = Replies res # rest" and "\<not> ok res" and "status res \<noteq> 401"
  shows "snd (request meth path body w) =
           w\<lparr>log := log w @ [request_opts meth path body w], net := rest\<rparr> \<and>
         (json res = None \<longrightarrow>
            fst (request meth path body w) = Inl (Error (''Error '' @ show_nat (status res)))) \<and>
         (\<forall>j d. json res = Some j \<and> get_prop j ''detail'' = Inr d \<longrightarrow>
            fst (request meth path body w) =
              Inl (Error (if truthy d then to_string d else ''Error '' @ show_nat (status res))))"
  using assms
  by (auto simp: request_def Let_def fetch_def first_result_def read_json_def js_or_def)

lemma retry_rejected:
  assumes "net w = Replies res # Replies r2 # Replies retry # rest" and "status res = 401"
    and "mg_refresh w = Some refresh" and "refresh \<noteq> []"
    and "ok r2" and "json r2 = Some data" and "truthy data" and "\<not> ok retry"
  shows "net (snd (request meth path body w)) = rest \<and>
         length (log (snd (request meth path body w))) = length (log w) + 3 \<and>
         (\<forall>j d. json retry = Some j \<and> get_prop j ''detail'' = Inr d \<longrightarrow>
            fst (request meth path body w) =
              Inl (Error (if truthy d then to_string d else ''Request failed'')))"
proof -
  let ?opts = "request_opts meth path body w"
  define w1 where "w1 = w\<lparr>log := log w @ [?opts], net := Replies r2 # Replies retry # rest\<rparr>"
  have f: "fetch ?opts w = (Inr res, w1)"
    using assms(1) by (simp add: fetch_def w1_def)
  have w1: "net w1 = Replies r2 # Replies retry # rest" "mg_refresh w1 = Some refresh"
    "log w1 = log w @ [?opts]"
    using assms(3) by (simp_all add: w1_def)
  from refreshToken_cases [of w1] w1 assms(4-7) obtain w2 where
    r: "refreshToken w1 = (Inr True, w2)" and n2: "net w2 = Replies retry # rest"
    and l2: "log w2 = log w @ [?opts, refresh_request refresh]"
    by (auto simp: Let_def)
  show ?thesis
    using f r n2 l2 assms(2,8)
    by (auto simp: request_def Let_def fetch_def retry_result_def read_json_def js_or_def)
qed

text \<open>
  Claim C2, as the code has it. A first response that is neither 2xx nor 401 sends nothing
  more (no refresh: the world only gains the one logged request) and raises an error whose
  message is the payload's \<^verbatim>\<open>detail\<close>, or \<^verbatim>\<open>Error <status>\<close> when the body is absent or
  not JSON or carries no detail. A non-2xx response to the retried request, after a
  successful refresh, sends nothing more either (three calls in all), and raises the
  payload's \<^verbatim>\<open>detail\<close> or else the fixed message \<^verbatim>\<open>Request failed\<close>.
\<close>

theorem request_rejected:
  "(net w = Replies res # rest \<and> \<not> ok res \<and> status res \<noteq> 401 \<longrightarrow>
      snd (request meth path body w) =
        w\<lparr>log := log w @ [request_opts meth path body w], net := rest\<rparr> \<and>
      (json res = None \<longrightarrow>
         fst (request meth path body w) = Inl (Error (''Error '' @ show_nat (status res)))) \<and>
      (\<forall>j d. json res = Some j \<and> get_prop j ''detail'' = Inr d \<longrightarrow>
         fst (request meth path body w) =
           Inl (Error (if truthy d then to_string d else ''Error '' @ show_nat (status res))))) \<and>
   (net w = Replies res # Replies r2 # Replies retry # rest \<and> status res = 401 \<and>
    mg_refresh w = Some refresh \<and> refresh \<noteq> [] \<and> ok r2 \<and> json r2 = Some data \<and> truthy data \<and>
    \<not> ok retry \<longrightarrow>
      net (snd (request meth path body w)) = rest \<and>
      length (log (snd (request meth path body w))) = length (log w) + 3 \<and>
      (\<forall>j d. json retry = Some j \<and> get_prop j ''detail'' = Inr d \<longrightarrow>
         fst (request meth path body w) =
           Inl (Error (if truthy d then to_string d else ''Request failed''))))"
  using first_rejected [of w res rest meth path body]
    retry_rejected [of w res r2 retry rest refresh data meth path body]
  by blast



lemmas eval_defs = signed_in_def initial_def tokens_def request_def request_opts_def fetch_def
  refreshToken_def refreshToken_try_def refresh_request_def first_result_def retry_result_def
  read_json_def ok_def js_or_def bearer_def API_def logout_def hideApp_def renderAuth_def Let_def

theorem request_unauthorized_witness:
  "request ''GET'' ''/books/7'' JNull
     (signed_in ''A1'' ''R1'' [Replies (Response 401 None), Replies (Response 401 None)]) =
     (Inl (Error ''Session expired''),
      logout ((signed_in ''A1'' ''R1'' [])
        \<lparr>log := [request_opts ''GET'' ''/books/7'' JNull (signed_in ''A1'' ''R1'' []),
                 refresh_request ''R1'']\<rparr>)) \<and>
   fst (request ''GET'' ''/books/7'' JNull
     (signed_in ''A1'' ''R1'' [Replies (Response 401 None),
        Replies (Response 200 (Some (tokens ''A2'' ''R2''))),
        Replies (Response 200 (Some (JObj [(''id'', JNum 7)])))])) = Inr (JObj [(''id'', JNum 7)]) \<and>
   map req_auth (log (snd (request ''GET'' ''/books/7'' JNull
     (signed_in ''A1'' ''R1'' [Replies (Response 401 None),
        Replies (Response 200 (Some (tokens ''A2'' ''R2''))),
        Replies (Response 200 (Some (JObj [(''id'', JNum 7)])))])))) =
     [Some ''Bearer A1'', None, Some ''Bearer A2'']"
  using request_unauthorized [of "signed_in ''A1'' ''R1'' [Replies (Response 401 None), Replies (Response 401 None)]"
      "Response 401 None" "[Replies (Response 401 None)]" "''GET''" "''/books/7''" JNull]
    request_unauthorized [of "signed_in ''A1'' ''R1'' [Replies (Response 401 None),
        Replies (Response 200 (Some (tokens ''A2'' ''R2''))),
        Replies (Response 200 (Some (JObj [(''id'', JNum 7)])))]"
      "Response 401 None" "[Replies (Response 200 (Some (tokens ''A2'' ''R2''))),
        Replies (Response 200 (Some (JObj [(''id'', JNum 7)])))]" "''GET''" "''/books/7''" JNull]
  by (simp add: eval_defs)

text \<open>
  The claim as the specification words it also tears the session down when the retried
  request fails. It does not: here the retry is answered 401 again, the caller gets the
  server's message, and the refreshed tokens stay.
\<close>

theorem retry_failure_keeps_session:
  "fst (request ''GET'' ''/books/7'' JNull
     (signed_in ''A1'' ''R1'' [Replies (Response 401 None),
        Replies (Response 200 (Some (tokens ''A2'' ''R2''))),
        Replies (Response 401 (Some (JObj [(''detail'', JStr ''Could not validate credentials'')])))]))
     = Inl (Error ''Could not validate credentials'') \<and>
   fst (request ''GET'' ''/books/7'' JNull
     (signed_in ''A1'' ''R1'' [Replies (Response 401 None),
        Replies (Response 200 (Some (tokens ''A2'' ''R2''))),
        Replies (Response 401 (Some (JObj [(''detail'', JStr ''Could not validate credentials'')])))]))
     \<noteq> Inl (Error ''Session expired'') \<and>
   token (snd (request ''GET'' ''/books/7'' JNull
     (signed_in ''A1'' ''R1'' [Replies (Response 401 None),
        Replies (Response 200 (Some (tokens ''A2'' ''R2''))),
        Replies (Response 401 (Some (JObj [(''detail'', JStr ''Could not validate credentials'')])))])))
     = JStr ''A2'' \<and>
   mg_refresh (snd (request ''GET'' ''/books/7'' JNull
     (signed_in ''A1'' ''R1'' [Replies (Response 401 None),
        Replies (Response 200 (Some (tokens ''A2'' ''R2''))),
        Replies (Response 401 (Some (JObj [(''detail'', JStr ''Could not validate credentials'')])))])))
     = Some ''R2'' \<and>
   app (snd (request ''GET'' ''/books/7'' JNull
     (signed_in ''A1'' ''R1'' [Replies (Response 401 None),
        Replies (Response 200 (Some (tokens ''A2'' ''R2''))),
        Replies (Response 401 (Some (JObj [(''detail'', JStr ''Could not validate credentials'')])))])))
     \<noteq> AuthView"
  by (simp add: eval_defs)

theorem request_rejected_witness:
  "request ''POST'' ''/admin/retrain'' JNull (signed_in ''A1'' ''R1'' [Replies (Response 403 None)]) =
     (Inl (Error ''Error 403''),
      (signed_in ''A1'' ''R1'' [])
        \<lparr>log := [request_opts ''POST'' ''/admin/retrain'' JNull (signed_in ''A1'' ''R1'' [])]\<rparr>) \<and>
   fst (request ''POST'' ''/admin/retrain'' JNull
     (signed_in ''A1'' ''R1''
        [Replies (Response 403 (Some (JObj [(''detail'', JStr ''Admin access required'')])))])) =
     Inl (Error ''Admin access required'') \<and>
   fst (request ''POST'' ''/admin/retrain'' JNull
     (signed_in ''A1'' ''R1''
        [Replies (Response 401 None), Replies (Response 200 (Some (tokens ''A2'' ''R2''))),
         Replies (Response 403 (Some (JObj [(''detail'', JStr ''Admin access required'')])))])) =
     Inl (Error ''Admin access required'')"
  using request_rejected [of "signed_in ''A1'' ''R1'' [Replies (Response 403 None)]"
      "Response 403 None" "[]" "''POST''" "''/admin/retrain''" JNull]
    request_rejected [of "signed_in ''A1'' ''R1''
        [Replies (Response 401 None), Replies (Response 200 (Some (tokens ''A2'' ''R2''))),
         Replies (Response 403 (Some (JObj [(''detail'', JStr ''Admin access required'')])))]"
      "Response 401 None" "[]" "''POST''" "''/admin/retrain''" JNull
      "Response 200 (Some (tokens ''A2'' ''R2''))"
      "Response 403 (Some (JObj [(''detail'', JStr ''Admin access required'')]))" "''R1''"
      "tokens ''A2'' ''R2''"]
  by (simp add: eval_defs show_nat.simps digit_char_def)

text \<open>
  On the retried request a 403 is not surfaced as \<^verbatim>\<open>Error 403\<close>: without a body the
  parser's error is raised, and a body without detail gives \<^verbatim>\<open>Request failed\<close>.
\<close>

theorem retry_rejected_message:
  "fst (request ''POST'' ''/admin/retrain'' JNull
     (signed_in ''A1'' ''R1''
        [Replies (Response 401 None), Replies (Response 200 (Some (tokens ''A2'' ''R2''))),
         Replies (Response 403 None)])) = Inl SyntaxError \<and>
   fst (request ''POST'' ''/admin/retrain'' JNull
     (signed_in ''A1'' ''R1''
        [Replies (Response 401 None), Replies (Response 200 (Some (tokens ''A2'' ''R2''))),
         Replies (Response 403 (Some (JObj [])))])) = Inl (Error ''Request failed'') \<and>
   ''Request failed'' \<noteq> ''Error '' @ show_nat 403"
  by (simp add: eval_defs show_nat.simps digit_char_def)

subsection \<open>What a request leaves alone\<close>

lemma fetch_frame [simp]:
  "page (snd (fetch rq w)) = page w"
  "pageSize (snd (fetch rq w)) = pageSize w"
  "searchQuery (snd (fetch rq w)) = searchQuery w"
  "genreFilter (snd (fetch rq w)) = genreFilter w"
  "timers (snd (fetch rq w)) = timers w"
  "inputs (snd (fetch rq w)) = inputs w"
  "next_id (snd (fetch rq w)) = next_id w"
  "toasts (snd (fetch rq w)) = toasts w"
  "books (snd (fetch rq w)) = books w"
  "totalBooks (snd (fetch rq w)) = totalBooks w"
  by (auto simp: fetch_def split: list.splits reply.splits)

lemma refreshToken_world:
  "snd (refreshToken w) = w \<or>
   (\<exists>refresh. mg_refresh w = Some refresh \<and>
      (snd (refreshToken w) = snd (fetch (refresh_request refresh) w) \<or>
       (\<exists>a r. snd (refreshToken w) =
          (snd (fetch (refresh_request refresh) w))\<lparr>token := a, mg_refresh := Some r\<rparr>)))"
proof -
  from refreshToken_cases [of w] consider
    "refreshToken w = (Inr False, w)"
    | refresh where "mg_refresh w = Some refresh"
        "refreshToken w = (Inr False, snd (fetch (refresh_request refresh) w))"
    | refresh a r where "mg_refresh w = Some refresh"
        "refreshToken w =
           (Inr True, (snd (fetch (refresh_request refresh) w))\<lparr>token := a, mg_refresh := Some r\<rparr>)"
    by (auto simp: Let_def)
  then show ?thesis
  proof cases
    case 1
    then show ?thesis by simp
  next
    case 2
    then show ?thesis by simp
  next
    case 3
    then have "snd (refreshToken w) =
        (snd (fetch (refresh_request refresh) w))\<lparr>token := a, mg_refresh := Some r\<rparr>"
      by simp
    with 3(1) show ?thesis by blast
  qed
qed

lemma refreshToken_frame [simp]:
  "page (snd (refreshToken w)) = page w"
  "pageSize (snd (refreshToken w)) = pageSize w"
  "searchQuery (snd (refreshToken w)) = searchQuery w"
  "genreFilter (snd (refreshToken w)) = genreFilter w"
  "timers (snd (refreshToken w)) = timers w"
  "inputs (snd (refreshToken w)) = inputs w"
  "next_id (snd (refreshToken w)) = next_id w"
  "toasts (snd (refreshToken w)) = toasts w"
  "books (snd (refreshToken w)) = books w"
  "totalBooks (snd (refreshToken w)) = totalBooks w"
  using refreshToken_world [of w] by auto

lemma logout_frame [simp]:
  "page (logout w) = page w"
  "pageSize (logout w) = pageSize w"
  "searchQuery (logout w) = searchQuery w"
  "genreFilter (logout w) = genreFilter w"
  "timers (logout w) = timers w"
  "inputs (logout w) = inputs w"
  "next_id (logout w) = next_id w"
  "toasts (logout w) = toasts w"
  "books (logout w) = books w"
  "totalBooks (logout w) = totalBooks w"
  "log (logout w) = log w"
  "net (logout w) = net w"
  "app (logout w) = AuthView"
  by (simp_all add: logout_def hideApp_def renderAuth_def)

text \<open>The world a request leaves is one of three.\<close>

lemma request_world:
  "snd (request m p b w) = snd (fetch (request_opts m p b w) w) \<or>
   snd (request m p b w) = logout (snd (refreshToken (snd (fetch (request_opts m p b w) w)))) \<or>
   (\<exists>a. snd (request m p b w) =
      snd (fetch ((request_opts m p b w)\<lparr>req_auth := a\<rparr>)
        (snd (refreshToken (snd (fetch (request_opts m p b w) w))))) \<and>
      fst (refreshToken (snd (fetch (request_opts m p b w) w))) = Inr True)"
proof -
  let ?o = "request_opts m p b w"
  obtain r1 w1 where f1: "fetch ?o w = (r1, w1)" by (cases "fetch ?o w")
  obtain r2 w2 where f2: "refreshToken w1 = (Inr r2, w2)"
    using refreshToken_returns [of w1] by blast
  obtain r3 w3 where f3: "fetch (?o\<lparr>req_auth := Some (bearer w2)\<rparr>) w2 = (r3, w3)"
    by (cases "fetch (?o\<lparr>req_auth := Some (bearer w2)\<rparr>) w2")
  have "snd (request m p b w) = w1 \<or> snd (request m p b w) = logout w2 \<or>
        (snd (request m p b w) = w3 \<and> r2)"
    using f1 f2 f3 by (auto simp: request_def Let_def split: sum.splits)
  moreover have "w1 = snd (fetch ?o w)" using f1 by (metis snd_conv)
  moreover have "w2 = snd (refreshToken w1)" "Inr r2 = fst (refreshToken w1)"
    using f2 by (metis snd_conv, metis fst_conv)
  moreover have "w3 = snd (fetch (?o\<lparr>req_auth := Some (bearer w2)\<rparr>) w2)"
    using f3 by (metis snd_conv)
  ultimately show ?thesis by metis
qed

lemma request_frame [simp]:
  "page (snd (request m p b w)) = page w"
  "pageSize (snd (request m p b w)) = pageSize w"
  "searchQuery (snd (request m p b w)) = searchQuery w"
  "genreFilter (snd (request m p b w)) = genreFilter w"
  "timers (snd (request m p b w)) = timers w"
  "inputs (snd (request m p b w)) = inputs w"
  "next_id (snd (request m p b w)) = next_id w"
  "toasts (snd (request m p b w)) = toasts w"
  "books (snd (request m p b w)) = books w"
  "totalBooks (snd (request m p b w)) = totalBooks w"
  using request_world [of m p b w] by auto

lemma request_app:
  "app (snd (request m p b w)) = app w \<or> app (snd (request m p b w)) = AuthView"
  using request_world [of m p b w] by auto

lemma request_ok_app:
  assumes "fst (request m p b w) = Inr v"
  shows "app (snd (request m p b w)) = app w"
proof -
  let ?o = "request_opts m p b w"
  obtain r1 w1 where f1: "fetch ?o w = (r1, w1)" by (cases "fetch ?o w")
  obtain r2 w2 where f2: "refreshToken w1 = (Inr r2, w2)"
    using refreshToken_returns [of w1] by blast
  obtain r3 w3 where f3: "fetch (?o\<lparr>req_auth := Some (bearer w2)\<rparr>) w2 = (r3, w3)"
    by (cases "fetch (?o\<lparr>req_auth := Some (bearer w2)\<rparr>) w2")
  have "snd (request m p b w) = w1 \<or> snd (request m p b w) = w3"
    using f1 f2 f3 assms by (auto simp: request_def Let_def split: sum.splits if_splits)
  moreover have "app w1 = app w" using f1 fetch_fields(4) [of ?o w] by simp
  moreover have "app w2 = app w1" using f2 refreshToken_fields(2) [of w1] by simp
  moreover have "app w3 = app w2"
    using f3 fetch_fields(4) [of "?o\<lparr>req_auth := Some (bearer w2)\<rparr>" w2] by simp
  ultimately show ?thesis by auto
qed

lemma refreshToken_log:
  "\<exists>more. log (snd (refreshToken w)) = log w @ more"
  using refreshToken_world [of w] by auto

lemma request_log:
  "\<exists>more. log (snd (request m p b w)) = log w @ request_opts m p b w # more"
  using request_world [of m p b w]
    refreshToken_log [of "snd (fetch (request_opts m p b w) w)"]
  by auto

lemma request_direct:
  assumes "net w = Replies res # rest" and "status res \<noteq> 401"
  shows "request m p b w =
    (first_result res, w\<lparr>log := log w @ [request_opts m p b w], net := rest\<rparr>)"
  using assms by (simp add: request_def fetch_def Let_def)

subsection \<open>Pagination\<close>

lemma totalPages_int:
  assumes "totalBooks w = JNum n" and "0 < pageSize w"
  shows "totalPages w = Finite \<lceil>real_of_int n / real_of_int (pageSize w)\<rceil>"
  using assms by (simp add: totalPages_def ceil_div_def)

text \<open>
  Claim C4. With an integer total and a positive page size, \<open>totalPages\<close> is the ceiling
  of their quotient. With at most one page there is no pagination control; otherwise
  Previous is disabled exactly when \<open>page \<le> 1\<close> and Next exactly when
  \<open>page \<ge> totalPages\<close>, so an enabled Previous leads to a page from 1 on and an enabled
  Next to a page up to \<open>totalPages\<close>. The witness is the case of 45 books in pages of 20:
  three pages, Previous disabled on page 1, Next disabled on page 3.
\<close>

theorem pagination_controls:
  assumes "app w = DiscoverView d" and "totalBooks w = JNum n" and "0 < pageSize w"
  shows "totalPages w = Finite \<lceil>real_of_int n / real_of_int (pageSize w)\<rceil> \<and>
    (if \<lceil>real_of_int n / real_of_int (pageSize w)\<rceil> \<le> 1
     then pagination_of (renderPagination w) = None
     else \<exists>p. pagination_of (renderPagination w) = Some p \<and>
            prev_disabled p = (page w \<le> 1) \<and>
            next_disabled p = (page w \<ge> \<lceil>real_of_int n / real_of_int (pageSize w)\<rceil>) \<and>
            prev_page p = page w - 1 \<and> next_page p = page w + 1 \<and>
            info_page p = page w \<and> info_total p = totalPages w \<and>
            (\<not> prev_disabled p \<longrightarrow> 1 \<le> prev_page p) \<and>
            (\<not> next_disabled p \<longrightarrow>
               next_page p \<le> \<lceil>real_of_int n / real_of_int (pageSize w)\<rceil>))"
  using assms totalPages_int [OF assms(2,3)]
  by (auto simp: renderPagination_def pagination_of_def pager_of_def)

theorem pagination_controls_witness:
  "totalPages (discover_page 45 1) = Finite 3 \<and>
   map_option prev_disabled (pagination_of (renderPagination (discover_page 45 1))) = Some True \<and>
   map_option next_disabled (pagination_of (renderPagination (discover_page 45 1))) = Some False \<and>
   map_option next_disabled (pagination_of (renderPagination (discover_page 45 3))) = Some True \<and>
   map_option prev_page (pagination_of (renderPagination (discover_page 45 3))) = Some 2 \<and>
   pagination_of (renderPagination (discover_page 20 1)) = None"
  using pagination_controls [of "discover_page 45 1" _ 45]
    pagination_controls [of "discover_page 45 3" _ 45]
    pagination_controls [of "discover_page 20 1" _ 20]
  by (auto simp: discover_page_def initial_def)

subsection \<open>Loading the list\<close>

lemma set_grid_frame [simp]:
  "page (set_grid g w) = page w"
  "pageSize (set_grid g w) = pageSize w"
  "searchQuery (set_grid g w) = searchQuery w"
  "genreFilter (set_grid g w) = genreFilter w"
  "timers (set_grid g w) = timers w"
  "inputs (set_grid g w) = inputs w"
  "next_id (set_grid g w) = next_id w"
  "log (set_grid g w) = log w"
  "net (set_grid g w) = net w"
  "token (set_grid g w) = token w"
  "mg_refresh (set_grid g w) = mg_refresh w"
  by (simp_all add: set_grid_def split: view.splits)

lemma renderPagination_frame [simp]:
  "page (renderPagination w) = page w"
  "pageSize (renderPagination w) = pageSize w"
  "searchQuery (renderPagination w) = searchQuery w"
  "genreFilter (renderPagination w) = genreFilter w"
  "timers (renderPagination w) = timers w"
  "inputs (renderPagination w) = inputs w"
  "next_id (renderPagination w) = next_id w"
  "log (renderPagination w) = log w"
  by (simp_all add: renderPagination_def split: view.splits)

lemma show_books_frame [simp]:
  "page (snd (show_books data w)) = page w"
  "pageSize (snd (show_books data w)) = pageSize w"
  "searchQuery (snd (show_books data w)) = searchQuery w"
  "genreFilter (snd (show_books data w)) = genreFilter w"
  "timers (snd (show_books data w)) = timers w"
  "inputs (snd (show_books data w)) = inputs w"
  "next_id (snd (show_books data w)) = next_id w"
  "log (snd (show_books data w)) = log w"
  by (simp_all add: show_books_def Let_def split: sum.splits)

text \<open>What \<open>loadBooks\<close> does, in terms of the one request it makes.\<close>

lemma loadBooks_unfold:
  assumes "app w = DiscoverView d"
  shows "\<exists>g. loadBooks w = set_grid g (snd (api_get (books_url w) (set_grid Skeleton w))) \<or>
     (\<exists>data. loadBooks w =
        snd (show_books data (snd (api_get (books_url w) (set_grid Skeleton w)))) \<or>
      loadBooks w =
        set_grid g (snd (show_books data (snd (api_get (books_url w) (set_grid Skeleton w))))))"
proof -
  let ?w0 = "set_grid Skeleton w"
  have u: "books_url ?w0 = books_url w" by (simp add: books_url_def)
  obtain r w1 where a: "api_get (books_url w) ?w0 = (r, w1)"
    by (cases "api_get (books_url w) ?w0")
  then have w1: "w1 = snd (api_get (books_url w) ?w0)" by (metis snd_conv)
  show ?thesis
  proof (cases r)
    case (Inl e)
    with a assms u have "loadBooks w = set_grid (CouldNotLoad (message_of e)) w1"
      by (simp add: loadBooks_def Let_def)
    with w1 show ?thesis by blast
  next
    case (Inr data)
    obtain eo w2 where s: "show_books data w1 = (eo, w2)" by (cases "show_books data w1")
    then have w2: "w2 = snd (show_books data w1)" by (metis snd_conv)
    from Inr a assms u s have "loadBooks w = w2 \<or> (\<exists>g. loadBooks w = set_grid g w2)"
      by (cases eo) (auto simp: loadBooks_def Let_def)
    with w1 w2 show ?thesis by blast
  qed
qed

lemma loadBooks_frame [simp]:
  "page (loadBooks w) = page w"
  "pageSize (loadBooks w) = pageSize w"
  "searchQuery (loadBooks w) = searchQuery w"
  "genreFilter (loadBooks w) = genreFilter w"
  "timers (loadBooks w) = timers w"
  "inputs (loadBooks w) = inputs w"
  "next_id (loadBooks w) = next_id w"
proof -
  show "page (loadBooks w) = page w"
    using loadBooks_unfold [of w]
    by (cases "app w") (auto simp: loadBooks_def api_get_def)
  show "pageSize (loadBooks w) = pageSize w"
    using loadBooks_unfold [of w]
    by (cases "app w") (auto simp: loadBooks_def api_get_def)
  show "searchQuery (loadBooks w) = searchQuery w"
    using loadBooks_unfold [of w]
    by (cases "app w") (auto simp: loadBooks_def api_get_def)
  show "genreFilter (loadBooks w) = genreFilter w"
    using loadBooks_unfold [of w]
    by (cases "app w") (auto simp: loadBooks_def api_get_def)
  show "timers (loadBooks w) = timers w"
    using loadBooks_unfold [of w]
    by (cases "app w") (auto simp: loadBooks_def api_get_def)
  show "inputs (loadBooks w) = inputs w"
    using loadBooks_unfold [of w]
    by (cases "app w") (auto simp: loadBooks_def api_get_def)
  show "next_id (loadBooks w) = next_id w"
    using loadBooks_unfold [of w]
    by (cases "app w") (auto simp: loadBooks_def api_get_def)
qed

lemma request_opts_set_grid [simp]:
  "request_opts m p b (set_grid g w) = request_opts m p b w"
  by (simp add: request_opts_def bearer_def)

lemma loadBooks_log:
  assumes "app w = DiscoverView d"
  shows "\<exists>more. log (loadBooks w) = log w @ request_opts ''GET'' (books_url w) JNull w # more"
proof -
  from request_log [of "''GET''" "books_url w" JNull "set_grid Skeleton w"]
  obtain more where "log (snd (api_get (books_url w) (set_grid Skeleton w))) =
      log w @ request_opts ''GET'' (books_url w) JNull w # more"
    by (auto simp: api_get_def)
  with loadBooks_unfold [OF assms] show ?thesis by auto
qed

lemma loadBooks_log_direct:
  assumes "app w = DiscoverView d" and "net w = Replies res # rest" and "status res \<noteq> 401"
  shows "log (loadBooks w) = log w @ [request_opts ''GET'' (books_url w) JNull w]"
proof -
  have "snd (api_get (books_url w) (set_grid Skeleton w)) =
     (set_grid Skeleton w)\<lparr>log := log w @ [request_opts ''GET'' (books_url w) JNull w], net := rest\<rparr>"
    using request_direct [of "set_grid Skeleton w" res rest "''GET''" "books_url w" JNull] assms(2,3)
    by (simp add: api_get_def)
  with loadBooks_unfold [OF assms(1)] show ?thesis by auto
qed

subsection \<open>Search and genre filter\<close>

lemma show_int_1 [simp]: "show_int 1 = ''1''"
  by (simp add: show_int_def show_nat.simps digit_char_def)

lemma books_url_first_page:
  "page w = 1 \<Longrightarrow> API @ books_url w =
     ''/api/books?page=1&page_size='' @ show_int (pageSize w)
       @ (if searchQuery w \<noteq> [] then ''&search='' @ encodeURIComponent (searchQuery w) else [])
       @ (if genreFilter w \<noteq> [] then ''&genre='' @ encodeURIComponent (genreFilter w) else [])"
  by (simp add: books_url_def API_def)

lemma chip_click_resets:
  assumes "app w = DiscoverView d" and "i < length (genre_chips d)"
  shows "genreFilter (chip_click i w) = chip_genre (genre_chips d ! i) \<and>
      page (chip_click i w) = 1 \<and>
      (\<exists>rq more. log (chip_click i w) = log w @ rq # more \<and> req_method rq = ''GET'' \<and>
         req_url rq = ''/api/books?page=1&page_size='' @ show_int (pageSize w)
           @ (if searchQuery w \<noteq> [] then ''&search='' @ encodeURIComponent (searchQuery w) else [])
           @ (if chip_genre (genre_chips d ! i) \<noteq> []
              then ''&genre='' @ encodeURIComponent (chip_genre (genre_chips d ! i)) else []))"
proof -
  let ?w = "w\<lparr>genreFilter := chip_genre (genre_chips d ! i), page := 1,
                 app := DiscoverView (d\<lparr>genre_chips := activate i (genre_chips d)\<rparr>)\<rparr>"
  have c: "chip_click i w = loadBooks ?w"
    using assms by (simp add: chip_click_def)
  have "app ?w = DiscoverView (d\<lparr>genre_chips := activate i (genre_chips d)\<rparr>)" by simp
  from loadBooks_log [OF this] obtain more where
    "log (loadBooks ?w) = log w @ request_opts ''GET'' (books_url ?w) JNull ?w # more"
    by auto
  moreover have "req_url (request_opts ''GET'' (books_url ?w) JNull ?w) = API @ books_url ?w"
    "req_method (request_opts ''GET'' (books_url ?w) JNull ?w) = ''GET''"
    by (simp_all add: request_opts_def)
  moreover have "page ?w = 1" by simp
  ultimately show ?thesis
    unfolding c using books_url_first_page [of ?w] by simp
qed

lemma timer_fires_resets:
  assumes "app w = DiscoverView d" and "map_of (timers w) t = Some el"
  shows "searchQuery (timer_fires t w) = trim (inputs w el) \<and>
      page (timer_fires t w) = 1 \<and>
      timers (timer_fires t w) = filter (\<lambda>p. fst p \<noteq> t) (timers w) \<and>
      (\<exists>rq more. log (timer_fires t w) = log w @ rq # more \<and> req_method rq = ''GET'' \<and>
         req_url rq = ''/api/books?page=1&page_size='' @ show_int (pageSize w)
           @ (if trim (inputs w el) \<noteq> []
              then ''&search='' @ encodeURIComponent (trim (inputs w el)) else [])
           @ (if genreFilter w \<noteq> [] then ''&genre='' @ encodeURIComponent (genreFilter w) else []))"
proof -
  let ?w = "w\<lparr>timers := filter (\<lambda>p. fst p \<noteq> t) (timers w),
               searchQuery := trim (inputs w el), page := 1\<rparr>"
  have c: "timer_fires t w = loadBooks ?w"
    using assms by (simp add: timer_fires_def search_callback_def)
  have "app ?w = DiscoverView d" using assms by simp
  from loadBooks_log [OF this] obtain more where
    "log (loadBooks ?w) = log w @ request_opts ''GET'' (books_url ?w) JNull ?w # more"
    by auto
  moreover have "req_url (request_opts ''GET'' (books_url ?w) JNull ?w) = API @ books_url ?w"
    "req_method (request_opts ''GET'' (books_url ?w) JNull ?w) = ''GET''"
    by (simp_all add: request_opts_def)
  moreover have "page ?w = 1" by simp
  ultimately show ?thesis
    unfolding c using books_url_first_page [of ?w] by simp
qed

text \<open>
  Claim C3. A click on a genre chip sets \<^verbatim>\<open>genreFilter\<close> to the chip's genre, and the
  callback of the search timer sets \<^verbatim>\<open>searchQuery\<close> to the trimmed value of the field;
  both set \<^verbatim>\<open>page\<close> to 1 first, and the list request they send next asks for page 1.
\<close>

theorem page_reset_before_fetch:
  "(app w = DiscoverView d \<and> i < length (genre_chips d) \<longrightarrow>
      genreFilter (chip_click i w) = chip_genre (genre_chips d ! i) \<and>
      page (chip_click i w) = 1 \<and>
      (\<exists>rq more. log (chip_click i w) = log w @ rq # more \<and> req_method rq = ''GET'' \<and>
         req_url rq = ''/api/books?page=1&page_size='' @ show_int (pageSize w)
           @ (if searchQuery w \<noteq> [] then ''&search='' @ encodeURIComponent (searchQuery w) else [])
           @ (if chip_genre (genre_chips d ! i) \<noteq> []
              then ''&genre='' @ encodeURIComponent (chip_genre (genre_chips d ! i)) else []))) \<and>
   (app w = DiscoverView d \<and> map_of (timers w) t = Some el \<longrightarrow>
      searchQuery (timer_fires t w) = trim (inputs w el) \<and>
      page (timer_fires t w) = 1 \<and>
      (\<exists>rq more. log (timer_fires t w) = log w @ rq # more \<and> req_method rq = ''GET'' \<and>
         req_url rq = ''/api/books?page=1&page_size='' @ show_int (pageSize w)
           @ (if trim (inputs w el) \<noteq> []
              then ''&search='' @ encodeURIComponent (trim (inputs w el)) else [])
           @ (if genreFilter w \<noteq> [] then ''&genre='' @ encodeURIComponent (genreFilter w) else [])))"
  using chip_click_resets [of w d i] timer_fires_resets [of w d t el]
  by blast

text \<open>
  One input event. Ahead of it, every pending timer has a number below \<open>next_id\<close>, and a
  pending timer of this view's field, if there is one, is the one \<^verbatim>\<open>searchTimer\<close> holds.
\<close>

lemma search_input_event_step:
  assumes "app w = DiscoverView d"
    and "\<forall>p \<in> set (timers w). fst p < next_id w"
    and "\<forall>p \<in> set (timers w). snd p = search_input d \<longrightarrow> searchTimer d = Some (fst p)"
  shows "app (search_input_event v w) = DiscoverView (d\<lparr>searchTimer := Some (next_id w)\<rparr>)"
    and "filter (\<lambda>p. snd p = search_input d) (timers (search_input_event v w)) =
           [(next_id w, search_input d)]"
    and "\<forall>p \<in> set (timers (search_input_event v w)). fst p < next_id (search_input_event v w)"
    and "map_of (timers (search_input_event v w)) (next_id w) = Some (search_input d)"
    and "inputs (search_input_event v w) (search_input d) = v"
    and "log (search_input_event v w) = log w"
    and "net (search_input_event v w) = net w"
    and "pageSize (search_input_event v w) = pageSize w"
    and "genreFilter (search_input_event v w) = genreFilter w"
proof -
  let ?el = "search_input d"
  let ?old = "case searchTimer d of None \<Rightarrow> timers w
              | Some i \<Rightarrow> filter (\<lambda>p. fst p \<noteq> i) (timers w)"
  have ev: "search_input_event v w =
      w\<lparr>inputs := (inputs w)(?el := v), timers := ?old @ [(next_id w, ?el)],
        next_id := next_id w + 1, app := DiscoverView (d\<lparr>searchTimer := Some (next_id w)\<rparr>)\<rparr>"
    using assms(1)
    by (cases "searchTimer d")
      (simp_all add: search_input_event_def clearTimeout_def setTimeout_def Let_def)
  have sub: "set ?old \<subseteq> set (timers w)"
    by (cases "searchTimer d") auto
  have none: "filter (\<lambda>p. snd p = ?el) ?old = []"
  proof (cases "searchTimer d")
    case None
    with assms(3) show ?thesis by (auto simp: filter_empty_conv)
  next
    case (Some i)
    with assms(3) show ?thesis by (auto simp: filter_empty_conv)
  qed
  have fresh: "next_id w \<notin> fst ` set ?old"
    using sub assms(2) by fastforce
  show "app (search_input_event v w) = DiscoverView (d\<lparr>searchTimer := Some (next_id w)\<rparr>)"
    by (simp add: ev)
  show "filter (\<lambda>p. snd p = ?el) (timers (search_input_event v w)) = [(next_id w, ?el)]"
    using none by (simp add: ev)
  show "\<forall>p \<in> set (timers (search_input_event v w)). fst p < next_id (search_input_event v w)"
    using sub assms(2) by (fastforce simp: ev)
  show "map_of (timers (search_input_event v w)) (next_id w) = Some ?el"
    using fresh by (simp add: ev map_add_Some_iff map_of_eq_None_iff)
  show "inputs (search_input_event v w) ?el = v"
    by (simp add: ev)
  show "log (search_input_event v w) = log w" "net (search_input_event v w) = net w"
    "pageSize (search_input_event v w) = pageSize w"
    "genreFilter (search_input_event v w) = genreFilter w"
    by (simp_all add: ev)
qed

lemma typing_snoc: "typing (vs @ [v]) w = search_input_event v (typing vs w)"
  by (simp add: typing_def)

text \<open>Any number of input events: the invariant is kept and nothing is sent.\<close>

lemma typing_invariant:
  assumes "app w = DiscoverView d"
    and "\<forall>p \<in> set (timers w). fst p < next_id w"
    and "\<forall>p \<in> set (timers w). snd p = search_input d \<longrightarrow> searchTimer d = Some (fst p)"
  shows "\<exists>d'. app (typing vs w) = DiscoverView d' \<and> search_input d' = search_input d \<and>
     (\<forall>p \<in> set (timers (typing vs w)). fst p < next_id (typing vs w)) \<and>
     (\<forall>p \<in> set (timers (typing vs w)).
        snd p = search_input d \<longrightarrow> searchTimer d' = Some (fst p)) \<and>
     log (typing vs w) = log w \<and> net (typing vs w) = net w \<and>
     pageSize (typing vs w) = pageSize w \<and> genreFilter (typing vs w) = genreFilter w"
proof (induction vs rule: rev_induct)
  case Nil
  with assms show ?case by (simp add: typing_def)
next
  case (snoc v vs)
  then obtain d' where d': "app (typing vs w) = DiscoverView d'"
    "search_input d' = search_input d"
    "\<forall>p \<in> set (timers (typing vs w)). fst p < next_id (typing vs w)"
    "\<forall>p \<in> set (timers (typing vs w)). snd p = search_input d' \<longrightarrow> searchTimer d' = Some (fst p)"
    and same: "log (typing vs w) = log w" "net (typing vs w) = net w"
      "pageSize (typing vs w) = pageSize w" "genreFilter (typing vs w) = genreFilter w"
    by auto
  note st = search_input_event_step [OF d'(1) d'(3) d'(4), of v]
  let ?d = "d'\<lparr>searchTimer := Some (next_id (typing vs w))\<rparr>"
  have "\<forall>p \<in> set (timers (typing (vs @ [v]) w)).
      snd p = search_input d \<longrightarrow> searchTimer ?d = Some (fst p)"
  proof
    fix p assume "p \<in> set (timers (typing (vs @ [v]) w))"
    show "snd p = search_input d \<longrightarrow> searchTimer ?d = Some (fst p)"
    proof
      assume "snd p = search_input d"
      with \<open>p \<in> _\<close> d'(2) have "p \<in> set (filter (\<lambda>p. snd p = search_input d')
          (timers (search_input_event v (typing vs w))))"
        by (simp add: typing_snoc)
      with st(2) show "searchTimer ?d = Some (fst p)" by simp
    qed
  qed
  with st same d'(2) show ?case
    by (simp add: typing_snoc)
qed

text \<open>
  Claim C8. Start from a Discover view whose field has no pending timer other than the one
  in \<^verbatim>\<open>searchTimer\<close>, and let the field go through the values \<open>vs\<close>, one input event
  each, with no timer firing in between. Nothing is sent while typing. Afterwards exactly
  one timer of the field is pending, the one armed by the last event. When it fires, the
  query becomes the last value (trimmed), the page is 1, one list request is sent with
  that query (the only request, unless the server answers 401), no timer of the field
  is left, and the same timer firing again does nothing.
\<close>

theorem search_debounce:
  assumes "app w = DiscoverView d"
    and "\<forall>p \<in> set (timers w). fst p < next_id w"
    and "\<forall>p \<in> set (timers w). snd p = search_input d \<longrightarrow> searchTimer d = Some (fst p)"
    and "vs \<noteq> []"
  shows "\<exists>t.
     log (typing vs w) = log w \<and>
     filter (\<lambda>p. snd p = search_input d) (timers (typing vs w)) = [(t, search_input d)] \<and>
     searchQuery (timer_fires t (typing vs w)) = trim (last vs) \<and>
     page (timer_fires t (typing vs w)) = 1 \<and>
     (\<exists>rq more. log (timer_fires t (typing vs w)) = log w @ rq # more \<and>
        req_method rq = ''GET'' \<and>
        req_url rq = ''/api/books?page=1&page_size='' @ show_int (pageSize w)
          @ (if trim (last vs) \<noteq> [] then ''&search='' @ encodeURIComponent (trim (last vs)) else [])
          @ (if genreFilter w \<noteq> [] then ''&genre='' @ encodeURIComponent (genreFilter w) else [])) \<and>
     (\<forall>res rest. net w = Replies res # rest \<and> status res \<noteq> 401 \<longrightarrow>
        length (log (timer_fires t (typing vs w))) = length (log w) + 1) \<and>
     filter (\<lambda>p. snd p = search_input d) (timers (timer_fires t (typing vs w))) = [] \<and>
     timer_fires t (timer_fires t (typing vs w)) = timer_fires t (typing vs w)"
proof -
  from assms(4) obtain us v where vs: "vs = us @ [v]"
    by (cases vs rule: rev_cases) auto
  let ?w1 = "typing us w"
  let ?w2 = "typing vs w"
  let ?el = "search_input d"
  from typing_invariant [OF assms(1-3), of us] obtain d' where d': "app ?w1 = DiscoverView d'"
    "search_input d' = ?el"
    "\<forall>p \<in> set (timers ?w1). fst p < next_id ?w1"
    "\<forall>p \<in> set (timers ?w1). snd p = search_input d' \<longrightarrow> searchTimer d' = Some (fst p)"
    and same: "log ?w1 = log w" "net ?w1 = net w" "pageSize ?w1 = pageSize w"
      "genreFilter ?w1 = genreFilter w"
    by auto
  note st = search_input_event_step [OF d'(1) d'(3) d'(4), of v]
  let ?t = "next_id ?w1"
  have w2: "?w2 = search_input_event v ?w1" by (simp add: vs typing_snoc)
  have app2: "app ?w2 = DiscoverView (d'\<lparr>searchTimer := Some ?t\<rparr>)"
    using st(1) w2 by simp
  have pend: "filter (\<lambda>p. snd p = ?el) (timers ?w2) = [(?t, ?el)]"
    using st(2) d'(2) w2 by simp
  have m: "map_of (timers ?w2) ?t = Some ?el"
    using st(4) d'(2) w2 by simp
  have inp: "inputs ?w2 ?el = last vs"
    using st(5) d'(2) w2 vs by simp
  have same2: "log ?w2 = log w" "net ?w2 = net w" "pageSize ?w2 = pageSize w"
    "genreFilter ?w2 = genreFilter w"
    using st(6-9) same w2 by simp_all
  note fire = timer_fires_resets [OF app2 m]
  have t_after: "timers (timer_fires ?t ?w2) = filter (\<lambda>p. fst p \<noteq> ?t) (timers ?w2)"
    using fire by simp
  have gone: "filter (\<lambda>p. snd p = ?el) (timers (timer_fires ?t ?w2)) = []"
  proof -
    have "filter (\<lambda>p. snd p = ?el) (filter (\<lambda>p. fst p \<noteq> ?t) (timers ?w2)) =
          filter (\<lambda>p. fst p \<noteq> ?t) (filter (\<lambda>p. snd p = ?el) (timers ?w2))"
      by (simp add: conj_commute)
    with pend t_after show ?thesis by simp
  qed
  have "map_of (timers (timer_fires ?t ?w2)) ?t = None"
    unfolding t_after by (auto simp: map_of_eq_None_iff)
  then have again: "timer_fires ?t (timer_fires ?t ?w2) = timer_fires ?t ?w2"
    by (simp add: timer_fires_def)
  have once: "length (log (timer_fires ?t ?w2)) = length (log w) + 1"
    if "net w = Replies res # rest" "status res \<noteq> 401" for res rest
  proof -
    let ?w = "?w2\<lparr>timers := filter (\<lambda>p. fst p \<noteq> ?t) (timers ?w2),
               searchQuery := trim (inputs ?w2 ?el), page := 1\<rparr>"
    have "timer_fires ?t ?w2 = loadBooks ?w"
      using m by (simp add: timer_fires_def search_callback_def)
    moreover have "app ?w = DiscoverView (d'\<lparr>searchTimer := Some ?t\<rparr>)" using app2 by simp
    moreover have "net ?w = Replies res # rest" using that same2 by simp
    ultimately show ?thesis
      using loadBooks_log_direct [of ?w _ res rest] that(2) same2 by simp
  qed
  show ?thesis
    by (rule exI [of _ ?t]) (use same2 pend fire inp gone again once in auto)
qed

subsection \<open>The views at work\<close>

lemmas discover_defs = discover0_def book_list_def renderDiscover_def renderGenreChips_def
  loadBooks_def show_books_def book_cards_def set_grid_def renderPagination_def totalPages_def
  pager_of_def ceil_div_def books_url_def api_get_def genres_def genre_chip_def
  chip_click_def activate_def search_input_event_def clearTimeout_def setTimeout_def
  timer_fires_def search_callback_def typing_def trim_def is_space_def encodeURIComponent_def
  unreserved_def percent_def hex_digit_def show_int_def show_nat.simps digit_char_def

lemma discover0_view: "\<exists>d. app discover0 = DiscoverView d"
  by (simp add: discover_defs eval_defs)

lemma discover0_timers: "timers discover0 = []"
  by (simp add: discover_defs eval_defs)

lemma fantasy_novel:
  "map req_url (log (timer_fires 13 (typing keys discover0))) =
     [''/api/books?page=1&page_size=20'', ''/api/books?page=1&page_size=20&search=fantasy%20novel'']"
  "searchQuery (timer_fires 13 (typing keys discover0)) = ''fantasy novel''"
  "timers (timer_fires 13 (typing keys discover0)) = []"
  by (simp_all add: keys_def discover_defs eval_defs)

theorem search_debounce_witness:
  "log (typing keys discover0) = log discover0 \<and>
   map req_url (log (timer_fires 13 (typing keys discover0))) =
     [''/api/books?page=1&page_size=20'', ''/api/books?page=1&page_size=20&search=fantasy%20novel''] \<and>
   searchQuery (timer_fires 13 (typing keys discover0)) = ''fantasy novel'' \<and>
   timers (timer_fires 13 (typing keys discover0)) = []"
proof -
  from discover0_view obtain d where d: "app discover0 = DiscoverView d" ..
  have k: "keys \<noteq> []" by (simp add: keys_def)
  from search_debounce [OF d _ _ k] have "log (typing keys discover0) = log discover0"
    by (simp add: discover0_timers)
  with fantasy_novel show ?thesis by simp
qed

lemma discover0_chips:
  "\<exists>d. app (discover0\<lparr>page := 3\<rparr>) = DiscoverView d \<and> 2 < length (genre_chips d)"
  by (simp add: discover_defs eval_defs)

lemma fantasy_chip:
  "map req_url (log (chip_click 2 (discover0\<lparr>page := 3\<rparr>))) =
     [''/api/books?page=1&page_size=20'', ''/api/books?page=1&page_size=20&genre=Fantasy'']"
  "genreFilter (chip_click 2 (discover0\<lparr>page := 3\<rparr>)) = ''Fantasy''"
  by (simp_all add: discover_defs eval_defs)

lemma fantasy_novel_page:
  "map_of (timers (typing keys (discover0\<lparr>page := 3\<rparr>))) 13 = Some 0"
  "searchQuery (timer_fires 13 (typing keys (discover0\<lparr>page := 3\<rparr>))) = ''fantasy novel''"
  by (simp_all add: keys_def discover_defs eval_defs)

theorem page_reset_before_fetch_witness:
  "page (discover0\<lparr>page := 3\<rparr>) = 3 \<and>
   page (chip_click 2 (discover0\<lparr>page := 3\<rparr>)) = 1 \<and>
   genreFilter (chip_click 2 (discover0\<lparr>page := 3\<rparr>)) = ''Fantasy'' \<and>
   map req_url (log (chip_click 2 (discover0\<lparr>page := 3\<rparr>))) =
     [''/api/books?page=1&page_size=20'', ''/api/books?page=1&page_size=20&genre=Fantasy''] \<and>
   page (timer_fires 13 (typing keys (discover0\<lparr>page := 3\<rparr>))) = 1 \<and>
   searchQuery (timer_fires 13 (typing keys (discover0\<lparr>page := 3\<rparr>))) = ''fantasy novel''"
proof -
  from discover0_chips obtain d where d: "app (discover0\<lparr>page := 3\<rparr>) = DiscoverView d"
    "2 < length (genre_chips d)" by blast
  from discover0_view obtain d' where "app discover0 = DiscoverView d'" ..
  from typing_invariant [of "discover0\<lparr>page := 3\<rparr>" d' keys] this
  obtain d'' where d'': "app (typing keys (discover0\<lparr>page := 3\<rparr>)) = DiscoverView d''"
    by (auto simp: discover0_timers)
  from page_reset_before_fetch [of "discover0\<lparr>page := 3\<rparr>" d 2] d
  have "page (chip_click 2 (discover0\<lparr>page := 3\<rparr>)) = 1" by simp
  moreover from page_reset_before_fetch [of "typing keys (discover0\<lparr>page := 3\<rparr>)" d'' _ 13 0]
    d'' fantasy_novel_page(1)
  have "page (timer_fires 13 (typing keys (discover0\<lparr>page := 3\<rparr>))) = 1" by simp
  ultimately show ?thesis using fantasy_chip fantasy_novel_page(2) by simp
qed

subsection \<open>Like, bookmark and rating\<close>

lemma toast_fields [simp]:
  "log (toast m ty w) = log w" "app (toast m ty w) = app w" "net (toast m ty w) = net w"
  "toasts (toast m ty w) = toasts w @ [(m, ty)]"
  by (simp_all add: toast_def)

lemma mark_active_active [simp]: "btn_active (snd (mark_active l b))"
  by (simp add: mark_active_def Let_def split: option.splits)

lemma mark_active_rendered:
  "mark_active l (action_button False done todo) =
     (None, \<lparr>btn_active = True, btn_children = [Text todo, Text l]\<rparr>)"
  by (simp add: mark_active_def action_button_def remove_lastElementChild_def)

text \<open>A write from a Detail view: what is sent, and what the page is afterwards.\<close>

lemma api_post_sent:
  "\<exists>more. log (snd (api_post p b w)) = log w @ request_opts ''POST'' p b w # more"
  using request_log [of "''POST''" p b w] by (simp add: api_post_def)

lemma api_post_ok_app:
  "fst (api_post p b w) = Inr v \<Longrightarrow> app (snd (api_post p b w)) = app w"
  using request_ok_app [of "''POST''" p b w v] by (simp add: api_post_def)

lemma api_post_app:
  "app (snd (api_post p b w)) = app w \<or> app (snd (api_post p b w)) = AuthView"
  using request_app [of "''POST''" p b w] by (simp add: api_post_def)

lemma api_post_toasts [simp]: "toasts (snd (api_post p b w)) = toasts w"
  by (simp add: api_post_def)

lemma like_click_inactive:
  assumes "app w = DetailView d" and "\<not> btn_active (like_btn d)"
  shows "(\<exists>more. log (like_click w) =
            log w @ request_opts ''POST'' ''/interactions'' (interaction (detail_book d) ''like'') w # more) \<and>
     (case fst (api_post ''/interactions'' (interaction (detail_book d) ''like'') w) of
        Inr v \<Rightarrow>
          app (like_click w) = DetailView (d\<lparr>like_btn := snd (mark_active '' Liked'' (like_btn d))\<rparr>)
      | Inl e \<Rightarrow>
          (app (like_click w) = app w \<or> app (like_click w) = AuthView) \<and>
          toasts (like_click w) = toasts w @ [(message_of e, ''error'')])"
proof -
  let ?b = "interaction (detail_book d) ''like''"
  obtain r w1 where p: "api_post ''/interactions'' ?b w = (r, w1)"
    by (cases "api_post ''/interactions'' ?b w")
  then have w1: "w1 = snd (api_post ''/interactions'' ?b w)" "r = fst (api_post ''/interactions'' ?b w)"
    by (metis snd_conv, metis fst_conv)
  from api_post_sent [of "''/interactions''" ?b w] w1 obtain more where
    l: "log w1 = log w @ request_opts ''POST'' ''/interactions'' ?b w # more" by auto
  show ?thesis
  proof (cases r)
    case (Inl e)
    with p assms have "like_click w = toast (message_of e) ''error'' w1"
      by (simp add: like_click_def)
    with Inl l w1 api_post_app [of "''/interactions''" ?b w] show ?thesis by auto
  next
    case (Inr v)
    with w1 api_post_ok_app [of "''/interactions''" ?b w v] assms(1)
    have a: "app w1 = DetailView d" by simp
    obtain th b where m: "mark_active '' Liked'' (like_btn d) = (th, b)"
      by (cases "mark_active '' Liked'' (like_btn d)")
    from Inr p assms a m have
      "like_click w = toast (case th of None \<Rightarrow> Msg (''Added to your likes '' @ heart) | Some e \<Rightarrow> message_of e)
          (case th of None \<Rightarrow> ''success'' | Some e \<Rightarrow> ''error'')
          (w1\<lparr>app := DetailView (d\<lparr>like_btn := b\<rparr>)\<rparr>)"
      by (cases th) (simp_all add: like_click_def)
    with Inr l w1 m show ?thesis by auto
  qed
qed

lemma bookmark_click_inactive:
  assumes "app w = DetailView d" and "\<not> btn_active (bookmark_btn d)"
  shows "(\<exists>more. log (bookmark_click w) =
            log w @ request_opts ''POST'' ''/interactions'' (interaction (detail_book d) ''bookmark'') w # more) \<and>
     (case fst (api_post ''/interactions'' (interaction (detail_book d) ''bookmark'') w) of
        Inr v \<Rightarrow>
          app (bookmark_click w) = DetailView (d\<lparr>bookmark_btn := snd (mark_active '' Bookmarked'' (bookmark_btn d))\<rparr>)
      | Inl e \<Rightarrow>
          (app (bookmark_click w) = app w \<or> app (bookmark_click w) = AuthView) \<and>
          toasts (bookmark_click w) = toasts w @ [(message_of e, ''error'')])"
proof -
  let ?b = "interaction (detail_book d) ''bookmark''"
  obtain r w1 where p: "api_post ''/interactions'' ?b w = (r, w1)"
    by (cases "api_post ''/interactions'' ?b w")
  then have w1: "w1 = snd (api_post ''/interactions'' ?b w)" "r = fst (api_post ''/interactions'' ?b w)"
    by (metis snd_conv, metis fst_conv)
  from api_post_sent [of "''/interactions''" ?b w] w1 obtain more where
    l: "log w1 = log w @ request_opts ''POST'' ''/interactions'' ?b w # more" by auto
  show ?thesis
  proof (cases r)
    case (Inl e)
    with p assms have "bookmark_click w = toast (message_of e) ''error'' w1"
      by (simp add: bookmark_click_def)
    with Inl l w1 api_post_app [of "''/interactions''" ?b w] show ?thesis by auto
  next
    case (Inr v)
    with w1 api_post_ok_app [of "''/interactions''" ?b w v] assms(1)
    have a: "app w1 = DetailView d" by simp
    obtain th b where m: "mark_active '' Bookmarked'' (bookmark_btn d) = (th, b)"
      by (cases "mark_active '' Bookmarked'' (bookmark_btn d)")
    from Inr p assms a m have
      "bookmark_click w = toast (case th of None \<Rightarrow> Msg (''Bookmarked! '' @ bookmark_sign) | Some e \<Rightarrow> message_of e)
          (case th of None \<Rightarrow> ''success'' | Some e \<Rightarrow> ''error'')
          (w1\<lparr>app := DetailView (d\<lparr>bookmark_btn := b\<rparr>)\<rparr>)"
      by (cases th) (simp_all add: bookmark_click_def)
    with Inr l w1 m show ?thesis by auto
  qed
qed



lemmas detail_defs = detail0_def detail_page_def action_button_def like_click_def
  bookmark_click_def star_click_def api_post_def interaction_def rate_body_def mark_active_def
  remove_lastElementChild_def toast_def rated_def fill_stars_def heart_def bookmark_sign_def
  star_sign_def show_int_def show_nat.simps digit_char_def

lemma like_scenarios:
  "map req_body (log (like_click (detail0 [Replies (Response 201 (Some (JObj [])))]))) =
     [Some (JObj [(''book_id'', JNum 7), (''interaction_type'', JStr ''like'')])]"
  "app (like_click (detail0 [Replies (Response 201 (Some (JObj [])))])) =
     DetailView ((detail_page (JNum 7) False False (JNum 0))
       \<lparr>like_btn := \<lparr>btn_active = True, btn_children = [Text ''Like'', Text '' Liked'']\<rparr>\<rparr>)"
  "like_click (like_click (detail0 [Replies (Response 201 (Some (JObj [])))])) =
     like_click (detail0 [Replies (Response 201 (Some (JObj [])))])"
  "app (like_click (detail0 [Replies (Response 500 None)])) = app (detail0 [])"
  "toasts (like_click (detail0 [Replies (Response 500 None)])) = [(Msg ''Error 500'', ''error'')]"
  by (simp_all add: detail_defs eval_defs)


lemma fill_stars_length [simp]: "length (fill_stars v ss) = length ss"
  by (simp add: fill_stars_def)

lemma fill_stars_value [simp]:
  "k < length ss \<Longrightarrow> star_value (fill_stars v ss ! k) = star_value (ss ! k)"
  by (simp add: fill_stars_def nth_enumerate_eq)

lemma star_click_same:
  assumes "app w = DetailView d" and "k < length (stars d)"
    and "JNum (star_value (stars d ! k)) = currentRating d"
  shows "star_click k w = w"
  using assms by (simp add: star_click_def Let_def)

lemma star_click_other:
  assumes "app w = DetailView d" and "k < length (stars d)"
    and "JNum (star_value (stars d ! k)) \<noteq> currentRating d"
  shows "(\<exists>more. log (star_click k w) =
            log w @ request_opts ''POST'' ''/interactions''
                      (rate_body (detail_book d) (star_value (stars d ! k))) w # more) \<and>
     (case fst (api_post ''/interactions'' (rate_body (detail_book d) (star_value (stars d ! k))) w) of
        Inr v \<Rightarrow>
          app (star_click k w) = DetailView (rated (star_value (stars d ! k)) d) \<and>
          star_click k (star_click k w) = star_click k w
      | Inl e \<Rightarrow>
          (app (star_click k w) = app w \<or> app (star_click k w) = AuthView) \<and>
          toasts (star_click k w) = toasts w @ [(message_of e, ''error'')])"
proof -
  let ?val = "star_value (stars d ! k)"
  let ?b = "rate_body (detail_book d) ?val"
  obtain r w1 where p: "api_post ''/interactions'' ?b w = (r, w1)"
    by (cases "api_post ''/interactions'' ?b w")
  then have w1: "w1 = snd (api_post ''/interactions'' ?b w)" "r = fst (api_post ''/interactions'' ?b w)"
    by (metis snd_conv, metis fst_conv)
  from api_post_sent [of "''/interactions''" ?b w] w1 obtain more where
    l: "log w1 = log w @ request_opts ''POST'' ''/interactions'' ?b w # more" by auto
  show ?thesis
  proof (cases r)
    case (Inl e)
    with p assms have "star_click k w = toast (message_of e) ''error'' w1"
      by (simp add: star_click_def Let_def)
    with Inl l w1 api_post_app [of "''/interactions''" ?b w] show ?thesis by auto
  next
    case (Inr v)
    with w1 api_post_ok_app [of "''/interactions''" ?b w v] assms(1)
    have a: "app w1 = DetailView d" by simp
    from Inr p assms a obtain m where
      c: "star_click k w = toast m ''success'' (w1\<lparr>app := DetailView (rated ?val d)\<rparr>)"
      by (simp add: star_click_def Let_def)
    then have a2: "app (star_click k w) = DetailView (rated ?val d)" by simp
    have "star_click k (star_click k w) = star_click k w"
      by (rule star_click_same [OF a2]) (use assms(2) in \<open>simp_all add: rated_def\<close>)
    with Inr l w1 c a2 show ?thesis by auto
  qed
qed

lemma star_click_twice_direct:
  assumes "app w = DetailView d" and "k < length (stars d)"
    and "JNum (star_value (stars d ! k)) \<noteq> currentRating d"
    and "net w = Replies res # rest" and "ok res" and "status res = 204 \<or> json res \<noteq> None"
  shows "length (log (star_click k (star_click k w))) = length (log w) + 1"
proof -
  let ?b = "rate_body (detail_book d) (star_value (stars d ! k))"
  have s: "status res \<noteq> 401" using assms(5) by (auto simp: ok_def)
  from request_direct [OF assms(4) s, of "''POST''" "''/interactions''" ?b]
  have r: "api_post ''/interactions'' ?b w =
      (first_result res, w\<lparr>log := log w @ [request_opts ''POST'' ''/interactions'' ?b w], net := rest\<rparr>)"
    by (simp add: api_post_def)
  have "\<exists>v. first_result res = Inr v"
    using assms(5,6) by (cases "status res = 204") (auto simp: first_result_def read_json_def)
  then obtain v where v: "first_result res = Inr v" ..
  from star_click_other [OF assms(1-3)] r v
  have "star_click k (star_click k w) = star_click k w" by simp
  moreover from r v assms(1-3) have "log (star_click k w) =
      log w @ [request_opts ''POST'' ''/interactions'' ?b w]"
    by (simp add: star_click_def Let_def)
  ultimately show ?thesis by simp
qed


lemma rate_scenarios:
  "map star_value (stars (detail_page (JNum 7) False False (JNum 0))) = [1, 2, 3, 4, 5]"
  "map req_body (log (star_click 3 (star_click 3 (detail0 [Replies (Response 201 (Some (JObj [])))])))) =
     [Some (JObj [(''book_id'', JNum 7), (''interaction_type'', JStr ''rate''), (''rating'', JNum 4)])]"
  "app (star_click 3 (detail0 [Replies (Response 201 (Some (JObj [])))])) =
     DetailView ((detail_page (JNum 7) False False (JNum 0))
       \<lparr>currentRating := JNum 4,
        stars := [\<lparr>star_value = 1, star_filled = True\<rparr>, \<lparr>star_value = 2, star_filled = True\<rparr>,
                  \<lparr>star_value = 3, star_filled = True\<rparr>, \<lparr>star_value = 4, star_filled = True\<rparr>,
                  \<lparr>star_value = 5, star_filled = False\<rparr>],
        rating_label := ''You rated 4/5''\<rparr>)"
  "app (star_click 3 (detail0 [Replies (Response 422 None)])) = app (detail0 [])"
  by (simp_all add: detail_defs eval_defs enumerate_eq_zip)


subsection \<open>The Library view\<close>

lemma request_urls:
  "\<exists>more. log (snd (request m p b w)) = log w @ request_opts m p b w # more \<and>
     (\<forall>rq \<in> set more. req_url rq = API @ p \<or> req_url rq = API @ ''/auth/refresh'')"
proof -
  let ?o = "request_opts m p b w"
  let ?w1 = "snd (fetch ?o w)"
  have l1: "log ?w1 = log w @ [?o]" by simp
  from refreshToken_world [of ?w1] have
    "log (snd (refreshToken ?w1)) = log w @ [?o] \<or>
     (\<exists>refresh. log (snd (refreshToken ?w1)) = log w @ [?o, refresh_request refresh])"
    by auto
  moreover have "req_url (refresh_request r) = API @ ''/auth/refresh''" for r
    by (simp add: refresh_request_def)
  moreover have "req_url (?o\<lparr>req_auth := a\<rparr>) = API @ p" for a
    by (simp add: request_opts_def)
  ultimately show ?thesis
    using request_world [of m p b w] by auto
qed

lemma api_get_urls:
  "\<exists>more. log (snd (api_get p w)) = log w @ request_opts ''GET'' p JNull w # more \<and>
     (\<forall>rq \<in> set more. req_url rq = API @ p \<or> req_url rq = API @ ''/auth/refresh'')"
  using request_urls [of "''GET''" p JNull w] by (simp add: api_get_def)

lemma set_content_fields [simp]:
  "log (set_content c w) = log w" "net (set_content c w) = net w"
  "token (set_content c w) = token w" "mg_refresh (set_content c w) = mg_refresh w"
  by (simp_all add: set_content_def split: view.splits)

lemma set_titles_fields [simp]:
  "log (set_titles b t w) = log w" "net (set_titles b t w) = net w"
  by (simp_all add: set_titles_def split: view.splits library_content.splits)

lemma enrich_log:
  "\<exists>more. log (enrich bids w) = log w @ more \<and>
     (\<forall>rq \<in> set more. req_url rq = API @ ''/auth/refresh'' \<or>
        (\<exists>b \<in> set bids. req_url rq = API @ ''/books/'' @ to_string b))"
proof (induction bids arbitrary: w)
  case Nil
  show ?case by simp
next
  case (Cons b bids)
  let ?p = "''/books/'' @ to_string b"
  obtain r w1 where g: "api_get ?p w = (r, w1)" by (cases "api_get ?p w")
  then have w1: "w1 = snd (api_get ?p w)" by (metis snd_conv)
  from api_get_urls [of ?p w] w1 obtain m1 where
    m1: "log w1 = log w @ request_opts ''GET'' ?p JNull w # m1"
    "\<forall>rq \<in> set m1. req_url rq = API @ ?p \<or> req_url rq = API @ ''/auth/refresh''"
    by auto
  have first: "req_url (request_opts ''GET'' ?p JNull w) = API @ ?p"
    by (simp add: request_opts_def)
  have "\<exists>w2. enrich (b # bids) w = enrich bids w2 \<and> log w2 = log w1"
    using g by (cases r) (auto split: sum.splits)
  then obtain w2 where w2: "enrich (b # bids) w = enrich bids w2" "log w2 = log w1" by blast
  from Cons.IH [of w2] obtain m2 where
    m2: "log (enrich bids w2) = log w2 @ m2"
    "\<forall>rq \<in> set m2. req_url rq = API @ ''/auth/refresh'' \<or>
        (\<exists>b \<in> set bids. req_url rq = API @ ''/books/'' @ to_string b)"
    by blast
  have "log (enrich (b # bids) w) = log w @ (request_opts ''GET'' ?p JNull w # m1 @ m2)"
    using w2 m1(1) m2(1) by simp
  moreover have "\<forall>rq \<in> set (request_opts ''GET'' ?p JNull w # m1 @ m2).
      req_url rq = API @ ''/auth/refresh'' \<or>
        (\<exists>c \<in> set (b # bids). req_url rq = API @ ''/books/'' @ to_string c)"
    using first m1(2) m2(2) by auto
  ultimately show ?case by blast
qed


lemma api_get_app: "app (snd (api_get p w)) = app w \<or> app (snd (api_get p w)) = AuthView"
  using request_app [of "''GET''" p JNull w] by (simp add: api_get_def)

lemma library_shown_cong: "app w' = app w \<Longrightarrow> library_shown w' = library_shown w"
  by (simp add: library_shown_def)

lemma set_titles_shown [simp]: "library_shown (set_titles b t w) = library_shown w"
  by (auto simp: set_titles_def set_content_def library_shown_def o_def
      split: view.splits library_content.splits intro!: map_cong)

lemma set_titles_auth [simp]: "(app (set_titles b t w) = AuthView) = (app w = AuthView)"
  by (auto simp: set_titles_def set_content_def split: view.splits library_content.splits)

lemma enrich_step:
  "\<exists>w2. enrich (b # bids) w = enrich bids w2 \<and>
     (app w2 = AuthView \<or> library_shown w2 = library_shown w)"
proof -
  let ?p = "''/books/'' @ to_string b"
  obtain r w1 where g: "api_get ?p w = (r, w1)" by (cases "api_get ?p w")
  then have w1: "w1 = snd (api_get ?p w)" by (metis snd_conv)
  with api_get_app [of ?p w] have a: "app w1 = AuthView \<or> library_shown w1 = library_shown w"
    by (auto dest: library_shown_cong)
  have "enrich (b # bids) w = enrich bids w1 \<or>
        (\<exists>t. enrich (b # bids) w = enrich bids (set_titles b t w1))"
    using g by (cases r) (auto split: sum.splits)
  with a show ?thesis by auto
qed

lemma enrich_auth: "app w = AuthView \<Longrightarrow> app (enrich bids w) = AuthView"
proof (induction bids arbitrary: w)
  case Nil
  then show ?case by simp
next
  case (Cons b bids)
  let ?p = "''/books/'' @ to_string b"
  obtain r w1 where g: "api_get ?p w = (r, w1)" by (cases "api_get ?p w")
  then have w1: "w1 = snd (api_get ?p w)" by (metis snd_conv)
  with api_get_app [of ?p w] Cons.prems have a: "app w1 = AuthView" by auto
  have "enrich (b # bids) w = enrich bids w1 \<or>
        (\<exists>t. enrich (b # bids) w = enrich bids (set_titles b t w1))"
    using g by (cases r) (auto split: sum.splits)
  with a Cons.IH show ?case by auto
qed

lemma enrich_shown:
  "app (enrich bids w) = AuthView \<or> library_shown (enrich bids w) = library_shown w"
proof (induction bids arbitrary: w)
  case Nil
  show ?case by simp
next
  case (Cons b bids)
  from enrich_step [of b bids w] obtain w2 where
    w2: "enrich (b # bids) w = enrich bids w2"
    "app w2 = AuthView \<or> library_shown w2 = library_shown w" by blast
  with Cons.IH [of w2] enrich_auth [of w2 bids] show ?case by auto
qed

lemma books_url_prefix: "take 11 (API @ ''/books/'' @ s) = ''/api/books/''"
  by (simp add: API_def)

lemma renderLibraryList_log:
  "\<exists>more. log (snd (renderLibraryList xs f w)) = log w @ more \<and>
     (\<forall>rq \<in> set more. req_url rq = API @ ''/auth/refresh'' \<or> take 11 (req_url rq) = ''/api/books/'')"
proof -
  have "snd (renderLibraryList xs f w) = w \<or>
        (\<exists>c. snd (renderLibraryList xs f w) = set_content c w) \<or>
        (\<exists>c bids. snd (renderLibraryList xs f w) = enrich bids (set_content c w))"
    by (auto simp: renderLibraryList_def enrichLibraryItems_def split: view.splits sum.splits)
  moreover have "\<exists>more. log (enrich bids (set_content c w)) = log w @ more \<and>
     (\<forall>rq \<in> set more. req_url rq = API @ ''/auth/refresh'' \<or> take 11 (req_url rq) = ''/api/books/'')"
    for bids c
    using enrich_log [of bids "set_content c w"] books_url_prefix by fastforce
  ultimately show ?thesis by (elim disjE exE) simp_all
qed

lemma renderLibraryList_shown:
  assumes "app w = LibraryView l" and "filter_interactions f xs = Inr (JArr ys)" and "no_null ys"
  shows "app (snd (renderLibraryList xs f w)) = AuthView \<or>
     (if ys = []
      then \<exists>l'. app (snd (renderLibraryList xs f w)) = LibraryView l' \<and>
                library_content l' = NothingHereYet f
      else library_shown (snd (renderLibraryList xs f w)) = Some ys)"
proof (cases "ys = []")
  case True
  with assms show ?thesis
    by (simp add: renderLibraryList_def set_content_def)
next
  case False
  let ?w = "set_content (LibRows (map library_row ys)) w"
  have "snd (renderLibraryList xs f w) = enrichLibraryItems ys ?w"
    using assms False by (simp add: renderLibraryList_def library_rows_def)
  moreover have "library_shown ?w = Some ys"
    using assms(1) by (simp add: library_shown_def set_content_def library_row_def Let_def o_def)
  ultimately show ?thesis
    using enrich_shown [of "distinct_first (book_ids ys)" ?w] False
    by (auto simp: enrichLibraryItems_def)
qed

lemma history_not_books:
  "req_url rq = API @ ''/auth/refresh'' \<or> take 11 (req_url rq) = ''/api/books/'' \<Longrightarrow>
   req_url rq \<noteq> API @ history_path"
  by (auto simp: API_def history_path_def)

lemma tab_click_library:
  assumes "app w = LibraryView l"
  shows "(\<exists>more. log (tab_click f w) = log w @ more \<and>
        (\<forall>rq \<in> set more. req_url rq \<noteq> API @ history_path \<and>
           (req_url rq = API @ ''/auth/refresh'' \<or> take 11 (req_url rq) = ''/api/books/''))) \<and>
     (\<forall>ys. filter_interactions f (allInteractions l) = Inr (JArr ys) \<and> no_null ys \<longrightarrow>
        app (tab_click f w) = AuthView \<or>
        (if ys = []
         then \<exists>l'. app (tab_click f w) = LibraryView l' \<and> library_content l' = NothingHereYet f
         else library_shown (tab_click f w) = Some ys))"
proof -
  let ?w0 = "w\<lparr>app := LibraryView (l\<lparr>activeFilter := f, active_tab := f\<rparr>)\<rparr>"
  have t: "tab_click f w = snd (renderLibraryList (allInteractions l) f ?w0)"
    using assms by (simp add: tab_click_def)
  from renderLibraryList_log [of "allInteractions l" f ?w0] obtain more where
    "log (tab_click f w) = log w @ more"
    "\<forall>rq \<in> set more. req_url rq = API @ ''/auth/refresh'' \<or> take 11 (req_url rq) = ''/api/books/''"
    unfolding t by auto
  then have "\<exists>more. log (tab_click f w) = log w @ more \<and>
        (\<forall>rq \<in> set more. req_url rq \<noteq> API @ history_path \<and>
           (req_url rq = API @ ''/auth/refresh'' \<or> take 11 (req_url rq) = ''/api/books/''))"
    using history_not_books by blast
  moreover have "app ?w0 = LibraryView (l\<lparr>activeFilter := f, active_tab := f\<rparr>)" by simp
  note renderLibraryList_shown [OF this, of f "allInteractions l"]
  ultimately show ?thesis unfolding t by blast
qed

lemma renderLibrary_log:
  "\<exists>more. log (renderLibrary w) = log w @ request_opts ''GET'' history_path JNull w # more \<and>
     (\<forall>rq \<in> set more. req_url rq = API @ history_path \<or> req_url rq = API @ ''/auth/refresh'' \<or>
        take 11 (req_url rq) = ''/api/books/'') \<and>
     (\<forall>res rest. net w = Replies res # rest \<and> status res \<noteq> 401 \<longrightarrow>
        (\<forall>rq \<in> set more. req_url rq \<noteq> API @ history_path))"
proof -
  let ?w1 = "w\<lparr>app := LibraryView \<lparr>active_tab = ''all'', activeFilter = ''all'',
                     allInteractions = JArr [], library_content = LibLoading\<rparr>\<rparr>"
  let ?o = "request_opts ''GET'' history_path JNull w"
  have o: "request_opts ''GET'' history_path JNull ?w1 = ?o"
    by (simp add: request_opts_def bearer_def)
  obtain r w2 where g: "api_get history_path ?w1 = (r, w2)" by (cases "api_get history_path ?w1")
  then have w2: "w2 = snd (api_get history_path ?w1)" by (metis snd_conv)
  from api_get_urls [of history_path ?w1] w2 o obtain m1 where
    m1: "log w2 = log w @ ?o # m1"
    "\<forall>rq \<in> set m1. req_url rq = API @ history_path \<or> req_url rq = API @ ''/auth/refresh''"
    by auto
  have direct: "m1 = []" if "net w = Replies res # rest" "status res \<noteq> 401" for res rest
  proof -
    from request_direct [of ?w1 res rest "''GET''" history_path JNull] that
    have "log (snd (api_get history_path ?w1)) = log w @ [?o]"
      by (simp add: api_get_def o)
    with m1(1) w2 show ?thesis by simp
  qed
  have "\<exists>m2. log (renderLibrary w) = log w2 @ m2 \<and>
     (\<forall>rq \<in> set m2. req_url rq = API @ ''/auth/refresh'' \<or> take 11 (req_url rq) = ''/api/books/'')"
  proof (cases r)
    case (Inl e)
    with g have "renderLibrary w = set_content (CouldNotLoadLibrary (message_of e)) w2"
      by (simp add: renderLibrary_def)
    then show ?thesis by simp
  next
    case (Inr data)
    define w3 where "w3 = (case app w2 of
                       LibraryView l \<Rightarrow> w2\<lparr>app := LibraryView (l\<lparr>allInteractions := data\<rparr>)\<rparr>
                     | _ \<Rightarrow> w2)"
    have l3: "log w3 = log w2" by (simp add: w3_def split: view.splits)
    obtain eo w4 where rl: "renderLibraryList data ''all'' w3 = (eo, w4)"
      by (cases "renderLibraryList data ''all'' w3")
    then have w4: "w4 = snd (renderLibraryList data ''all'' w3)" by (metis snd_conv)
    from Inr g rl have "log (renderLibrary w) = log w4"
      by (cases eo) (simp_all add: renderLibrary_def w3_def [symmetric])
    with renderLibraryList_log [of data "''all''" w3] w4 l3 show ?thesis by auto
  qed
  then obtain m2 where m2: "log (renderLibrary w) = log w2 @ m2"
    "\<forall>rq \<in> set m2. req_url rq = API @ ''/auth/refresh'' \<or> take 11 (req_url rq) = ''/api/books/''"
    by blast
  have "log (renderLibrary w) = log w @ ?o # (m1 @ m2)"
    using m1(1) m2(1) by simp
  moreover have "\<forall>rq \<in> set (m1 @ m2). req_url rq = API @ history_path \<or>
      req_url rq = API @ ''/auth/refresh'' \<or> take 11 (req_url rq) = ''/api/books/''"
    using m1(2) m2(2) by auto
  moreover have "\<forall>rq \<in> set (m1 @ m2). req_url rq \<noteq> API @ history_path"
    if "net w = Replies res # rest" "status res \<noteq> 401" for res rest
    using direct [OF that] m2(2) history_not_books by auto
  ultimately show ?thesis by blast
qed


lemmas library_defs = library0_def record_of_def book_reply_def renderLibrary_def
  renderLibraryList_def filter_interactions_def library_rows_def library_row_def no_null_def
  enrichLibraryItems_def book_ids_def set_titles_def set_content_def text_content_def
  tab_click_def history_path_def api_get_def library_shown_def show_int_def show_nat.simps
  digit_char_def

lemma library0_log:
  "map req_url (log library0) =
     [''/api/interactions/me?page_size=100'', ''/api/books/7'', ''/api/books/9'']"
  by (simp add: library_defs eval_defs)

lemma library0_view:
  "app library0 = LibraryView
     \<lparr>active_tab = ''all'', activeFilter = ''all'',
      allInteractions = JArr [record_of 7 ''like'', record_of 9 ''bookmark'', record_of 7 ''view''],
      library_content = LibRows
        [\<lparr>row_book_id = JNum 7, row_title = ''Emma'', row_item = record_of 7 ''like''\<rparr>,
         \<lparr>row_book_id = JNum 9, row_title = ''Ulysses'', row_item = record_of 9 ''bookmark''\<rparr>,
         \<lparr>row_book_id = JNum 7, row_title = ''Emma'', row_item = record_of 7 ''view''\<rparr>]\<rparr>"
  by (simp add: library_defs eval_defs)

lemma library0_like:
  "map req_url (log (tab_click ''like'' library0)) =
     [''/api/interactions/me?page_size=100'', ''/api/books/7'', ''/api/books/9'', ''/api/books/7'']"
  "library_shown (tab_click ''like'' library0) = Some [record_of 7 ''like'']"
  by (simp_all add: library_defs eval_defs)



subsection \<open>Decoding the identity\<close>

lemmas decode_defs = decode_try_def decodeAndSetUser_def middle_segment_def identity_of_def
  prop_or_undefined_def show_username_def atob_def strip_padding_def
  is_ascii_whitespace_def b64_value_def byte_char_def base64url_decode_def chloe_payload_def
  chloe_parse_def chloe_token_def parseInt_def hex_value_def is_digit_def digits_value_def
  is_space_def js_or_def initial_def

text \<open>Whatever the try block throws, the identity is what it was.\<close>

lemma decode_failure_keeps_identity:
  "fst (decode_try parse tok w) = Some e \<Longrightarrow> decodeAndSetUser parse tok w = w"
  by (auto simp: decode_try_def decodeAndSetUser_def split: jsval.splits sum.splits option.splits)

lemma decode_standard_alphabet:
  "user (decodeAndSetUser chloe_parse
     (JStr (''eyJhbGciOiJIUzI1NiIsInR5cCI6IkpXVCJ9.''
        @ ''eyJzdWIiOiI3Iiwicm9sZSI6InVzZXIiLCJ1c2VybmFtZSI6IkNobG/DqyJ9'' @ ''.c2ln''))
     (initial None [])) =
   Some \<lparr>user_id = Some 7, role = JStr ''user'',
         username = JStr (''Chlo'' @ [CHR 0xC3, CHR 0x83, CHR 0xC2, CHR 0xAB])\<rparr>"
  by (simp add: decode_defs)

text \<open>
  Claim C7 fails on the code. The middle segment of this token is the URL-safe base64 of
  a JSON object with \<^verbatim>\<open>sub\<close>, \<^verbatim>\<open>role\<close> and \<^verbatim>\<open>username\<close>, but it holds the character
  \<^verbatim>\<open>_\<close>, which \<^verbatim>\<open>atob\<close> refuses: whatever the JSON parser, the identity stays unset.
\<close>

theorem decode_url_safe_token:
  "base64url_decode ''eyJzdWIiOiI3Iiwicm9sZSI6InVzZXIiLCJ1c2VybmFtZSI6IkNobG_DqyJ9'' =
     Inr chloe_payload \<and>
   middle_segment chloe_token =
     ''eyJzdWIiOiI3Iiwicm9sZSI6InVzZXIiLCJ1c2VybmFtZSI6IkNobG_DqyJ9'' \<and>
   atob ''eyJzdWIiOiI3Iiwicm9sZSI6InVzZXIiLCJ1c2VybmFtZSI6IkNobG_DqyJ9'' =
     Inl InvalidCharacterError \<and>
   (\<forall>parse. user (decodeAndSetUser parse (JStr chloe_token) (initial None [])) = None)"
  by (simp add: decode_defs)

end
